theory Spec2Isabelle
  imports Complex_Main "HOL-Library.Monad_Syntax"
begin

section \<open>NumPy arrays\<close>

text \<open>
  A two-axis \<^verbatim>\<open>numpy.ndarray\<close> is its shape and its entries. The entries are exact
  reals: the development idealises double precision to real arithmetic, with no rounding
  and no overflow. What real numbers cannot hold is made explicit where the source
  produces it: a call that raises (ValueError on mismatched shapes, IndexError,
  LinAlgError, ZeroDivisionError), or an array whose entries are \<^verbatim>\<open>x / 0\<close>
  (\<^verbatim>\<open>inf\<close> or \<^verbatim>\<open>nan\<close>), is the result \<open>None\<close>.
\<close>

datatype 'a array2 = Array2 (nrows: nat) (ncols: nat) (entry: "nat \<Rightarrow> nat \<Rightarrow> 'a")

type_synonym mat = "real array2"

text \<open>Every array is built by \<open>tabulate2\<close>, so two arrays are equal exactly when their
  shapes and their entries inside the shape are.\<close>

definition tabulate2 :: "nat \<Rightarrow> nat \<Rightarrow> (nat \<Rightarrow> nat \<Rightarrow> 'a::zero) \<Rightarrow> 'a array2" where
  "tabulate2 r c f = Array2 r c (\<lambda>i j. if i < r \<and> j < c then f i j else 0)"

text \<open>An array literal: \<^verbatim>\<open>np.array(rows)\<close> with \<open>c\<close> columns.\<close>

definition of_rows :: "nat \<Rightarrow> 'a::zero list list \<Rightarrow> 'a array2" where
  "of_rows c rows = tabulate2 (length rows) c (\<lambda>i j. rows ! i ! j)"

definition to_rows :: "'a array2 \<Rightarrow> 'a list list" where
  "to_rows A = map (\<lambda>i. map (\<lambda>j. entry A i j) [0..<ncols A]) [0..<nrows A]"

definition zeros :: "nat \<Rightarrow> nat \<Rightarrow> mat" where
  "zeros r c = tabulate2 r c (\<lambda>i j. 0)"

definition eye :: "nat \<Rightarrow> mat" where
  "eye n = tabulate2 n n (\<lambda>i j. if i = j then 1 else 0)"

text \<open>\<^verbatim>\<open>A.T\<close>\<close>

definition tr :: "'a::zero array2 \<Rightarrow> 'a array2" where
  "tr A = tabulate2 (ncols A) (nrows A) (\<lambda>i j. entry A j i)"

text \<open>\<^verbatim>\<open>A @ B\<close>: numpy raises ValueError unless the inner dimensions agree.\<close>

definition mm :: "mat \<Rightarrow> mat \<Rightarrow> mat" where
  "mm A B = tabulate2 (nrows A) (ncols B) (\<lambda>i j. \<Sum>k<ncols A. entry A i k * entry B k j)"

definition matmul :: "mat \<Rightarrow> mat \<Rightarrow> mat option" where
  "matmul A B = (if ncols A = nrows B then Some (mm A B) else None)"

text \<open>\<^verbatim>\<open>c * A\<close> and \<^verbatim>\<open>-A\<close>\<close>

definition smul :: "real \<Rightarrow> mat \<Rightarrow> mat" where
  "smul c A = tabulate2 (nrows A) (ncols A) (\<lambda>i j. c * entry A i j)"

text \<open>\<^verbatim>\<open>A / c\<close> for a scalar \<open>c\<close>: with \<open>c = 0\<close> every entry is \<^verbatim>\<open>inf\<close> or
  \<^verbatim>\<open>nan\<close>, so only an array without entries has a result.\<close>

definition divide_by :: "mat \<Rightarrow> real \<Rightarrow> mat option" where
  "divide_by A c =
     (if c = 0 \<and> 0 < nrows A \<and> 0 < ncols A then None else Some (smul (1 / c) A))"

text \<open>Broadcasting a two-axis value to the shape \<open>r\<close> by \<open>c\<close>: an axis of length one is
  repeated, any other mismatch raises ValueError.\<close>

definition broadcast_to :: "nat \<Rightarrow> nat \<Rightarrow> 'a::zero array2 \<Rightarrow> 'a array2 option" where
  "broadcast_to r c B =
     (if (nrows B = r \<or> nrows B = 1) \<and> (ncols B = c \<or> ncols B = 1)
      then Some (tabulate2 r c
             (\<lambda>i j. entry B (if nrows B = r then i else 0) (if ncols B = c then j else 0)))
      else None)"

text \<open>\<^verbatim>\<open>S += B\<close>: the right-hand side is broadcast to the shape of \<open>S\<close>.\<close>

definition iadd :: "mat \<Rightarrow> mat \<Rightarrow> mat option" where
  "iadd S B = do {
     B' \<leftarrow> broadcast_to (nrows S) (ncols S) B;
     Some (tabulate2 (nrows S) (ncols S) (\<lambda>i j. entry S i j + entry B' i j))
   }"

subsection \<open>Python slices\<close>

text \<open>A slice bound of Python on an axis of length \<open>n\<close>: a negative bound counts from
  the end, and both are clamped to the axis. An omitted bound is \<open>None\<close>.\<close>

definition py_bound :: "nat \<Rightarrow> int \<Rightarrow> nat" where
  "py_bound n i = (if i < 0 then nat (max 0 (int n + i)) else min n (nat i))"

definition py_lo :: "nat \<Rightarrow> int option \<Rightarrow> nat" where
  "py_lo n b = (case b of None \<Rightarrow> 0 | Some i \<Rightarrow> py_bound n i)"

definition py_hi :: "nat \<Rightarrow> int option \<Rightarrow> nat" where
  "py_hi n b = (case b of None \<Rightarrow> n | Some i \<Rightarrow> py_bound n i)"

text \<open>\<^verbatim>\<open>A[r0:r1, c0:c1]\<close>\<close>

definition slice2 :: "'a::zero array2 \<Rightarrow> int option \<times> int option \<Rightarrow> int option \<times> int option \<Rightarrow> 'a array2" where
  "slice2 A rs cs =
     (let r0 = py_lo (nrows A) (fst rs); r1 = py_hi (nrows A) (snd rs);
          c0 = py_lo (ncols A) (fst cs); c1 = py_hi (ncols A) (snd cs)
      in tabulate2 (r1 - r0) (c1 - c0) (\<lambda>i j. entry A (r0 + i) (c0 + j)))"

section \<open>HAC covariance: \<^verbatim>\<open>NW_hac_STATA\<close>\<close>

text \<open>
  \<^verbatim>\<open>
  def NW_hac_STATA(Vars, lags):
      Sigma0 = (Vars.T @ Vars) / len(Vars)
      sigma_cov_k = lambda V, k: (V[0:-k].T @ V[0:-k]) / len(V)
      S = Sigma0
      for n in range(lags):
          S += (1 - n / (lags + 1)) * sigma_cov_k(Vars, n) @ sigma_cov_k(Vars, n).T
      return S
  \<close>
  \<^verbatim>\<open>*\<close> and \<^verbatim>\<open>@\<close> have the same precedence and associate to the left.
\<close>

definition sigma_cov_k :: "mat \<Rightarrow> nat \<Rightarrow> mat option" where
  "sigma_cov_k V k = do {
     let Vk = slice2 V (Some 0, Some (- int k)) (None, None);
     P \<leftarrow> matmul (tr Vk) Vk;
     divide_by P (real (nrows V))
   }"

fun NW_loop :: "mat \<Rightarrow> nat \<Rightarrow> nat list \<Rightarrow> mat \<Rightarrow> mat option" where
  "NW_loop Vars lags [] S = Some S"
| "NW_loop Vars lags (n # ns) S = do {
     G \<leftarrow> sigma_cov_k Vars n;
     G' \<leftarrow> sigma_cov_k Vars n;
     P \<leftarrow> matmul (smul (1 - real n / real (lags + 1)) G) (tr G');
     S' \<leftarrow> iadd S P;
     NW_loop Vars lags ns S'
   }"

definition NW_hac_STATA :: "mat \<Rightarrow> nat \<Rightarrow> mat option" where
  "NW_hac_STATA Vars lags = do {
     VV \<leftarrow> matmul (tr Vars) Vars;
     Sigma0 \<leftarrow> divide_by VV (real (nrows Vars));
     NW_loop Vars lags [0..<lags] Sigma0
   }"

text \<open>The sample second moment \<open>V\<^sup>T V / T\<close>, entry by entry.\<close>

definition second_moment :: "mat \<Rightarrow> mat" where
  "second_moment V =
     tabulate2 (ncols V) (ncols V)
       (\<lambda>i j. (\<Sum>t<nrows V. entry V t i * entry V t j) / real (nrows V))"

text \<open>The lag-\<open>k\<close> cross product \<open>(1/T) \<Sum>\<^sub>t v\<^sub>t\<^sub>+\<^sub>k v\<^sub>t\<^sup>T\<close> that a Newey-West estimator weights
  with the Bartlett kernel (the words of the specification, not the source).\<close>

definition lagged_cross_product :: "mat \<Rightarrow> nat \<Rightarrow> mat" where
  "lagged_cross_product V k =
     tabulate2 (ncols V) (ncols V)
       (\<lambda>i j. (\<Sum>t<nrows V - k. entry V (t + k) i * entry V t j) / real (nrows V))"

section \<open>Moving-average representation: \<^verbatim>\<open>MA_representation\<close>\<close>

text \<open>
  \<^verbatim>\<open>
  def MA_representation(betas, p, hori=21):
      n = len(betas)
      A, C = [betas[:, n * i: n * (i + 1)] for i in range(p)], [np.eye(n)]
      for m in range(1, hori):
          C_m = np.array([a @ c for a, c in zip(A[:m], list(reversed(C)))]).sum(axis=0)
          C.append(C_m)
      return C
  \<close>
  With \<open>p = 0\<close> the list of products is empty and \<^verbatim>\<open>np.array([]).sum(axis=0)\<close> is the
  scalar \<^verbatim>\<open>0.0\<close>, not a matrix: the entries of \<open>C\<close> are scalars or matrices.
\<close>

datatype ndarr = Scalar real | Matrix mat

definition lag_blocks :: "mat \<Rightarrow> nat \<Rightarrow> nat \<Rightarrow> mat list" where
  "lag_blocks betas n p =
     map (\<lambda>i. slice2 betas (None, None) (Some (int (n * i)), Some (int (n * (i + 1))))) [0..<p]"

text \<open>\<^verbatim>\<open>a @ c\<close>: a scalar operand raises ValueError.\<close>

definition matmul_nd :: "mat \<Rightarrow> ndarr \<Rightarrow> mat option" where
  "matmul_nd a c = (case c of Scalar x \<Rightarrow> None | Matrix m \<Rightarrow> matmul a m)"

text \<open>\<^verbatim>\<open>np.array(ms).sum(axis=0)\<close>: the empty list gives the scalar zero; matrices of
  different shapes cannot be stacked (ValueError).\<close>

definition sum_axis0 :: "mat list \<Rightarrow> ndarr option" where
  "sum_axis0 ms =
     (case ms of
        [] \<Rightarrow> Some (Scalar 0)
      | m # ms' \<Rightarrow>
          if list_all (\<lambda>m'. nrows m' = nrows m \<and> ncols m' = ncols m) ms'
          then Some (Matrix (tabulate2 (nrows m) (ncols m)
                 (\<lambda>i j. \<Sum>m'\<leftarrow>m # ms'. entry m' i j)))
          else None)"

fun MA_loop :: "mat list \<Rightarrow> nat list \<Rightarrow> ndarr list \<Rightarrow> ndarr list option" where
  "MA_loop A [] C = Some C"
| "MA_loop A (m # ms) C = do {
     prods \<leftarrow> those (map (\<lambda>(a, c). matmul_nd a c) (zip (take m A) (rev C)));
     C_m \<leftarrow> sum_axis0 prods;
     MA_loop A ms (C @ [C_m])
   }"

definition MA_representation :: "mat \<Rightarrow> nat \<Rightarrow> nat \<Rightarrow> ndarr list option" where
  "MA_representation betas p hori =
     MA_loop (lag_blocks betas (nrows betas) p) [1..<hori] [Matrix (eye (nrows betas))]"

text \<open>Matrix powers, for the one-lag case: \<open>A\<^sup>0 = I\<close>, \<open>A\<^sup>k\<^sup>+\<^sup>1 = A A\<^sup>k\<close>.\<close>

fun mat_pow :: "mat \<Rightarrow> nat \<Rightarrow> mat" where
  "mat_pow A 0 = eye (nrows A)"
| "mat_pow A (Suc k) = mm A (mat_pow A k)"

text \<open>The sum of a list of \<open>n\<close>-by-\<open>n\<close> matrices.\<close>

definition matsum :: "nat \<Rightarrow> mat list \<Rightarrow> mat" where
  "matsum n ms = tabulate2 n n (\<lambda>i j. \<Sum>m\<leftarrow>ms. entry m i j)"

section \<open>Impulse responses: \<^verbatim>\<open>irf_gamma\<close> and \<^verbatim>\<open>irf_lineal_cholesky\<close>\<close>

text \<open>An index of Python on an axis of length \<open>n\<close>: a negative index counts from the end,
  anything outside raises IndexError.\<close>

definition py_index :: "nat \<Rightarrow> int \<Rightarrow> nat option" where
  "py_index n i =
     (if 0 \<le> i \<and> i < int n then Some (nat i)
      else if - int n \<le> i \<and> i < 0 then Some (nat (int n + i))
      else None)"

text \<open>\<^verbatim>\<open>np.array(C)\<close> for a list of arrays: the entries must be matrices of one shape
  (a scalar beside a matrix raises ValueError).\<close>

definition stack_matrices :: "ndarr list \<Rightarrow> mat list option" where
  "stack_matrices C = do {
     ms \<leftarrow> those (map (\<lambda>c. case c of Scalar x \<Rightarrow> None | Matrix m \<Rightarrow> Some m) C);
     if list_all (\<lambda>m. nrows m = nrows (hd ms) \<and> ncols m = ncols (hd ms)) ms then Some ms else None
   }"

text \<open>
  \<^verbatim>\<open>
  def irf_gamma(betas, Gamma_hat, periods=21, koef=0.1, wrt=0):
      Lags = int(betas.shape[1] / betas.shape[0])
      return MA_representation(betas, Lags, periods) @ Gamma_hat / (Gamma_hat[wrt]) * koef
  \<close>
  The result has the axes (horizon, variable, column of \<open>Gamma_hat\<close>); the list is the
  horizon axis. The row \<^verbatim>\<open>Gamma_hat[wrt]\<close> divides along the last axis; a zero in it
  makes entries \<^verbatim>\<open>inf\<close> or \<^verbatim>\<open>nan\<close>.
\<close>

definition irf_gamma :: "mat \<Rightarrow> mat \<Rightarrow> nat \<Rightarrow> real \<Rightarrow> int \<Rightarrow> mat list option" where
  "irf_gamma betas Gamma_hat periods koef wrt = do {
     Lags \<leftarrow> (if nrows betas = 0 then None else Some (ncols betas div nrows betas));
     C \<leftarrow> MA_representation betas Lags periods;
     Cs \<leftarrow> stack_matrices C;
     prods \<leftarrow> those (map (\<lambda>c. matmul c Gamma_hat) Cs);
     w \<leftarrow> py_index (nrows Gamma_hat) wrt;
     if list_ex (\<lambda>j. entry Gamma_hat w j = 0) [0..<ncols Gamma_hat] then None
     else Some (map (\<lambda>P. tabulate2 (nrows P) (ncols P)
                   (\<lambda>i j. entry P i j / entry Gamma_hat w j * koef)) prods)
   }"

text \<open>A one-axis array (a list) or a two-axis array.\<close>

datatype arr = Vec "real list" | Mat2 mat

text \<open>\<^verbatim>\<open>np.linalg.cholesky\<close> is the library's: the factorisation is a parameter \<open>chol\<close>
  (\<open>None\<close>: LinAlgError). The library raises on an array that is not square and returns a
  factor of the shape of its argument.\<close>

definition np_cholesky :: "(mat \<Rightarrow> mat option) \<Rightarrow> mat \<Rightarrow> mat option" where
  "np_cholesky chol S =
     (if nrows S \<noteq> ncols S then None
      else do {
        L \<leftarrow> chol S;
        if nrows L = nrows S \<and> ncols L = ncols S then Some L else None
      })"

text \<open>\<^verbatim>\<open>koef * (np.array(irf_0) / (np.array(irf_0)[0]))\<close>: a one-axis array is divided by
  its first entry, a two-axis array by its first row, column by column.\<close>

definition normalize_shock :: "real \<Rightarrow> arr \<Rightarrow> arr option" where
  "normalize_shock koef v =
     (case v of
        Vec xs \<Rightarrow>
          (case xs of
             [] \<Rightarrow> None
           | x # xs' \<Rightarrow> if x = 0 then None else Some (Vec (map (\<lambda>y. koef * (y / x)) xs)))
      | Mat2 M \<Rightarrow>
          if nrows M = 0 then None
          else if list_ex (\<lambda>j. entry M 0 j = 0) [0..<ncols M] then None
          else Some (Mat2 (tabulate2 (nrows M) (ncols M)
                 (\<lambda>i j. koef * (entry M i j / entry M 0 j)))))"

text \<open>\<^verbatim>\<open>irf[t, :] = value\<close>: the value is broadcast to the row; a two-axis value fits
  only with a single row.\<close>

definition assign_row :: "mat \<Rightarrow> int \<Rightarrow> arr \<Rightarrow> mat option" where
  "assign_row irf t v = do {
     t' \<leftarrow> py_index (nrows irf) t;
     row \<leftarrow> (case v of
        Vec xs \<Rightarrow>
          if length xs = ncols irf then Some (\<lambda>j. xs ! j)
          else if length xs = 1 then Some (\<lambda>j. xs ! 0)
          else None
      | Mat2 M \<Rightarrow>
          if nrows M = 1 \<and> (ncols M = ncols irf \<or> ncols M = 1)
          then Some (\<lambda>j. entry M 0 (if ncols M = ncols irf then j else 0))
          else None);
     Some (tabulate2 (nrows irf) (ncols irf) (\<lambda>i j. if i = t' then row j else entry irf i j))
   }"

text \<open>\<^verbatim>\<open>np.concatenate(ms, axis=1)\<close>: raises on the empty list and on differing row
  counts.\<close>

definition hcat :: "mat \<Rightarrow> mat \<Rightarrow> mat" where
  "hcat A B =
     tabulate2 (nrows A) (ncols A + ncols B)
       (\<lambda>i j. if j < ncols A then entry A i j else entry B i (j - ncols A))"

definition concatenate1 :: "mat list \<Rightarrow> mat option" where
  "concatenate1 ms =
     (case ms of
        [] \<Rightarrow> None
      | m # ms' \<Rightarrow> if list_all (\<lambda>m'. nrows m' = nrows m) ms' then Some (foldl hcat m ms') else None)"

text \<open>\<^verbatim>\<open>A.sum(axis=1)\<close> and \<^verbatim>\<open>A.cumsum(axis=0)\<close>\<close>

definition row_sums :: "mat \<Rightarrow> real list" where
  "row_sums A = map (\<lambda>i. \<Sum>j<ncols A. entry A i j) [0..<nrows A]"

definition cumsum0 :: "mat \<Rightarrow> mat" where
  "cumsum0 A = tabulate2 (nrows A) (ncols A) (\<lambda>i j. \<Sum>k<Suc i. entry A k j)"

text \<open>
  \<^verbatim>\<open>
  def irf_lineal_cholesky(betas, S, periods=21, normalize=True, cumulative=True, koef=0.1):
      use_chol = True if S.shape[1] >= 2 else False
      Lags = int(betas.shape[1] / betas.shape[0])
      num_endog = int(betas.shape[0])
      betas_lags = [betas[:, i * num_endog:(i + 1) * num_endog] for i in range(Lags)]
      irf = np.zeros((periods, betas.shape[0]))
      irf_0 = list(np.linalg.cholesky(S)[:, 0]) if use_chol == True else list(S)
      if normalize:
          irf_0 = koef * (np.array(irf_0) / (np.array(irf_0)[0]))
      irf[0, :] = list(irf_0)
      for t in range(1, periods):
          B = betas_lags[:t]
          i_lags = irf[0:t]
          i_lags = i_lags[-len(B):, :]
          i_lags_list = [i_lags[j, :].reshape(num_endog, 1) for j in range(i_lags.shape[0])]
          i_lags_list.reverse()
          agregg = [z[0] @ z[1] for z in zip(B, i_lags_list)]
          sum_t = np.concatenate(agregg, axis=1).sum(axis=1)
          irf[t, :] = sum_t
      if cumulative:
          irf_cum = irf.cumsum(axis=0)
      rv = irf_cum if cumulative else irf
      return rv
  \<close>
  A row of \<open>irf\<close> has \<open>num_endog\<close> entries, so the reshape to a column always fits.
\<close>

fun irf_loop :: "mat list \<Rightarrow> nat \<Rightarrow> nat list \<Rightarrow> mat \<Rightarrow> mat option" where
  "irf_loop betas_lags num_endog [] irf = Some irf"
| "irf_loop betas_lags num_endog (t # ts) irf = do {
     let B = take t betas_lags;
     let i_lags = slice2 irf (Some 0, Some (int t)) (None, None);
     let i_lags = slice2 i_lags (Some (- int (length B)), None) (None, None);
     let i_lags_list =
           map (\<lambda>j. tabulate2 num_endog 1 (\<lambda>i k. entry i_lags j i)) [0..<nrows i_lags];
     agregg \<leftarrow> those (map (\<lambda>(b, v). matmul b v) (zip B (rev i_lags_list)));
     cat \<leftarrow> concatenate1 agregg;
     irf' \<leftarrow> assign_row irf (int t) (Vec (row_sums cat));
     irf_loop betas_lags num_endog ts irf'
   }"

definition irf_lineal_cholesky ::
  "(mat \<Rightarrow> mat option) \<Rightarrow> mat \<Rightarrow> mat \<Rightarrow> nat \<Rightarrow> bool \<Rightarrow> bool \<Rightarrow> real \<Rightarrow> mat option" where
  "irf_lineal_cholesky chol betas S periods normalize' cumulative koef = do {
     let use_chol = (2 \<le> ncols S);
     Lags \<leftarrow> (if nrows betas = 0 then None else Some (ncols betas div nrows betas));
     let num_endog = nrows betas;
     let betas_lags = lag_blocks betas num_endog Lags;
     let irf = zeros periods (nrows betas);
     irf_0 \<leftarrow> (if use_chol
               then do {
                 L \<leftarrow> np_cholesky chol S;
                 Some (Vec (map (\<lambda>i. entry L i 0) [0..<nrows L]))
               }
               else Some (Mat2 S));
     irf_0 \<leftarrow> (if normalize' then normalize_shock koef irf_0 else Some irf_0);
     irf \<leftarrow> assign_row irf 0 irf_0;
     irf \<leftarrow> irf_loop betas_lags num_endog [1..<periods] irf;
     Some (if cumulative then cumsum0 irf else irf)
   }"

text \<open>The Cholesky factor of a symmetric positive definite 2-by-2 matrix, in closed form
  (read from the lower triangle, as the library does): the value of \<open>chol\<close> in concrete
  evaluations.\<close>

definition cholesky_2x2 :: "mat \<Rightarrow> mat option" where
  "cholesky_2x2 S =
     (let a = entry S 0 0; b = entry S 1 0; d = entry S 1 1
      in if nrows S = 2 \<and> ncols S = 2 \<and> 0 < a \<and> 0 < a * d - b * b
         then Some (of_rows 2 [[sqrt a, 0], [b / sqrt a, sqrt (d - b * b / a)]])
         else None)"

section \<open>Confidence intervals: \<^verbatim>\<open>CI_dmethod\<close> and \<^verbatim>\<open>CI_dmethod_standard\<close>\<close>

subsection \<open>One-axis arrays, three-axis arrays and floats that are not numbers\<close>

text \<open>A three-axis array, and its slice \<^verbatim>\<open>G[:, :, ih]\<close> (IndexError outside the axis).\<close>

datatype arr3 = Array3 (dim0: nat) (dim1: nat) (dim2: nat) (entry3: "nat \<Rightarrow> nat \<Rightarrow> nat \<Rightarrow> real")

definition tabulate3 :: "nat \<Rightarrow> nat \<Rightarrow> nat \<Rightarrow> (nat \<Rightarrow> nat \<Rightarrow> nat \<Rightarrow> real) \<Rightarrow> arr3" where
  "tabulate3 a b c f = Array3 a b c (\<lambda>i j k. if i < a \<and> j < b \<and> k < c then f i j k else 0)"

definition axis2_slice :: "arr3 \<Rightarrow> nat \<Rightarrow> mat option" where
  "axis2_slice G ih =
     (if ih < dim2 G then Some (tabulate2 (dim0 G) (dim1 G) (\<lambda>i j. entry3 G i j ih)) else None)"

text \<open>\<^verbatim>\<open>C[ih]\<close> on the list of moving-average coefficients; a scalar entry cannot be an
  operand of \<^verbatim>\<open>@\<close> (ValueError).\<close>

definition list_item :: "ndarr list \<Rightarrow> nat \<Rightarrow> mat option" where
  "list_item C ih =
     (if ih < length C then (case C ! ih of Scalar x \<Rightarrow> None | Matrix m \<Rightarrow> Some m) else None)"

text \<open>\<^verbatim>\<open>A[i, j]\<close>, \<^verbatim>\<open>A[i]\<close> and \<^verbatim>\<open>A[:, j]\<close> with the indices of Python.\<close>

definition index2 :: "'a array2 \<Rightarrow> int \<Rightarrow> int \<Rightarrow> 'a option" where
  "index2 A i j = do {
     i' \<leftarrow> py_index (nrows A) i;
     j' \<leftarrow> py_index (ncols A) j;
     Some (entry A i' j')
   }"

definition row_at :: "mat \<Rightarrow> int \<Rightarrow> real list option" where
  "row_at A i = do {
     i' \<leftarrow> py_index (nrows A) i;
     Some (map (\<lambda>j. entry A i' j) [0..<ncols A])
   }"

definition column_at :: "mat \<Rightarrow> int \<Rightarrow> real list option" where
  "column_at A j = do {
     j' \<leftarrow> py_index (ncols A) j;
     Some (map (\<lambda>i. entry A i j') [0..<nrows A])
   }"

text \<open>\<^verbatim>\<open>@\<close> with one-axis operands: a one-axis array on the left is a row, on the right a
  column, and the result loses that axis; two one-axis arrays give their inner product.\<close>

definition vecmat :: "real list \<Rightarrow> mat \<Rightarrow> real list option" where
  "vecmat v M =
     (if length v = nrows M
      then Some (map (\<lambda>c. \<Sum>r<nrows M. v ! r * entry M r c) [0..<ncols M])
      else None)"

definition matvec :: "mat \<Rightarrow> real list \<Rightarrow> real list option" where
  "matvec M v =
     (if ncols M = length v
      then Some (map (\<lambda>r. \<Sum>c<ncols M. entry M r c * v ! c) [0..<nrows M])
      else None)"

definition dot :: "real list \<Rightarrow> real list \<Rightarrow> real option" where
  "dot v w = (if length v = length w then Some (\<Sum>i<length v. v ! i * w ! i) else None)"

definition vsmul :: "real \<Rightarrow> real list \<Rightarrow> real list" where
  "vsmul c v = map (\<lambda>x. c * x) v"

text \<open>A one-axis array as a row, as \<^verbatim>\<open>np.kron\<close> and \<^verbatim>\<open>reshape(1, len)\<close> make it.\<close>

definition as_row :: "real list \<Rightarrow> mat" where
  "as_row v = tabulate2 1 (length v) (\<lambda>i j. v ! j)"

text \<open>\<^verbatim>\<open>np.kron(A, B)\<close>\<close>

definition kron :: "mat \<Rightarrow> mat \<Rightarrow> mat" where
  "kron A B =
     tabulate2 (nrows A * nrows B) (ncols A * ncols B)
       (\<lambda>r c. entry A (r div nrows B) (c div ncols B) * entry B (r mod nrows B) (c mod ncols B))"

text \<open>Storing an array in one cell, \<^verbatim>\<open>out[j, ih] = value\<close>: the value must have exactly
  one entry.\<close>

definition item1 :: "real list \<Rightarrow> real option" where
  "item1 v = (if length v = 1 then Some (v ! 0) else None)"

definition item2 :: "mat \<Rightarrow> real option" where
  "item2 M = (if nrows M = 1 \<and> ncols M = 1 then Some (entry M 0 0) else None)"

text \<open>A float that may be \<^verbatim>\<open>inf\<close>, \<^verbatim>\<open>-inf\<close> or \<^verbatim>\<open>nan\<close>.\<close>

datatype fl = Fin real | PInf | NInf | NaN

instantiation fl :: zero
begin

definition zero_fl :: fl where
  "zero_fl = Fin 0"

instance ..

end

subsection \<open>\<^verbatim>\<open>CI_dmethod\<close>\<close>

text \<open>
  \<^verbatim>\<open>
  def CI_dmethod(Gamma_hat, WHat, G, T, C, hori=21, confidence=0.95, scale=1, nvar=1):
      n = len(Gamma_hat)
      critval = norm.ppf(1-(1-confidence)/2)**2
      W1, W2 = WHat[:-n,:-n], WHat[-n:,-n:]
      W12 = WHat[W1.shape[0]:,:W1.shape[0]].T
      e = np.eye(n)
      ahat = np.zeros((n, hori))     # and bhat, chat, Deltahat, MSWlbound, MSWubound, casedummy
      for j in range(n):
          for ih in range(hori):
              ahat[j,ih] = T*(Gamma_hat[nvar-1, 0]**2) - critval*W2[nvar-1, nvar-1]
              bhat[j, ih] = (-2*T*scale*(e[:,j].T @ C[ih] @ Gamma_hat @ Gamma_hat[nvar-1])
                  + 2*critval*scale*np.kron(Gamma_hat.T, e[:,j].T) @ G[:,:,ih] @ W12[:, nvar-1]
                  + 2*critval*scale*e[:,j].T @ C[ih] @ W2[:, nvar-1])
              chat[j, ih] = (((T**.5)*scale*e[:,j].T @ C[ih] @ Gamma_hat)**2
                  -critval*(scale**2)*np.kron(Gamma_hat.T, e[:,j].T) @ G[:,:,ih] @ W1
                      @ (np.kron(Gamma_hat.T, e[:,j].T) @ G[:,:,ih]).T
                  -2*critval*(scale**2)*np.kron(Gamma_hat.T, e[:,j].T) @ G[:,:,ih] @ W12
                      @ C[ih].T @ e[:,j]
                  -critval*(scale**2)*e[:,j].T @ C[ih] @ W2 @ C[ih].T @ e[:,j])
              Deltahat[j,ih] = bhat[j,ih]**2 - (4*ahat[j,ih] * chat[j,ih])
              if (ahat[j, ih]>0) and (Deltahat[j,ih]>0):
                  casedummy[j,ih] = 1
                  MSWlbound[j,ih] = (-bhat[j,ih] - (Deltahat[j,ih]**.5))/(2*ahat[j,ih])
                  MSWubound[j,ih] = (-bhat[j,ih] + (Deltahat[j,ih]**.5))/(2*ahat[j,ih])
              elif (ahat[j, ih]<0) and (Deltahat[j,ih]>0):
                  casedummy[j,ih] = 2
                  MSWlbound[j,ih] = (-bhat[j,ih] + (Deltahat[j,ih]**.5))/(2*ahat[j,ih])
                  MSWubound[j,ih] = (-bhat[j,ih] - (Deltahat[j,ih]**.5))/(2*ahat[j,ih])
              elif (ahat[j, ih]>0) and (Deltahat[j,ih]<0):
                  casedummy[j,ih] = 3
                  MSWlbound[j,ih] = np.nan
                  MSWubound[j,ih] = np.nan
              else:
                  casedummy[j,ih] = 4
                  MSWlbound[j,ih] = -np.inf
                  MSWubound[j,ih] = np.inf
      MSWlbound[nvar-1, 0] = scale
      MSWubound[nvar-1, 0] = scale
      rv = {'l':MSWlbound, 'u':MSWubound, 'ahat':ahat, 'bhat':bhat, 'chat':chat,
            'Deltahat':Deltahat,'casedummy':casedummy}
      return rv
  \<close>
  \<^verbatim>\<open>norm.ppf\<close> is the library's normal quantile function: a parameter \<open>ppf\<close>. The number
  of observations \<open>T\<close> is a natural number. The products are taken from left to right, with
  the scalar factors where the source has them.
\<close>

definition critval_of :: "(real \<Rightarrow> real) \<Rightarrow> real \<Rightarrow> real" where
  "critval_of ppf confidence = (ppf (1 - (1 - confidence) / 2))\<^sup>2"

text \<open>The four branches on the signs of \<open>a\<close> and \<open>Delta\<close>: the case number and the two bounds.\<close>

definition msw_case :: "real \<Rightarrow> real \<Rightarrow> real \<Rightarrow> real \<times> fl \<times> fl" where
  "msw_case a b Delta =
     (if a > 0 \<and> Delta > 0
        then (1, Fin ((- b - sqrt Delta) / (2 * a)), Fin ((- b + sqrt Delta) / (2 * a)))
      else if a < 0 \<and> Delta > 0
        then (2, Fin ((- b + sqrt Delta) / (2 * a)), Fin ((- b - sqrt Delta) / (2 * a)))
      else if a > 0 \<and> Delta < 0
        then (3, NaN, NaN)
      else (4, NInf, PInf))"

record msw_cell =
  cell_ahat :: real
  cell_bhat :: real
  cell_chat :: real
  cell_Deltahat :: real
  cell_casedummy :: real
  cell_lbound :: fl
  cell_ubound :: fl

text \<open>The body of the two loops for the cell \<open>(j, ih)\<close>.\<close>

definition msw_cell_of ::
  "mat \<Rightarrow> mat \<Rightarrow> mat \<Rightarrow> mat \<Rightarrow> arr3 \<Rightarrow> nat \<Rightarrow> ndarr list \<Rightarrow> real \<Rightarrow> real \<Rightarrow> int \<Rightarrow> nat \<Rightarrow> nat
     \<Rightarrow> msw_cell option" where
  "msw_cell_of Gamma_hat W1 W12 W2 G T C critval scale nvar j ih = do {
     let e_j = map (\<lambda>i. entry (eye (nrows Gamma_hat)) i j) [0..<nrows Gamma_hat];
     g \<leftarrow> index2 Gamma_hat (nvar - 1) 0;
     w \<leftarrow> index2 W2 (nvar - 1) (nvar - 1);
     let a = real T * g\<^sup>2 - critval * w;
     C_ih \<leftarrow> list_item C ih;
     eC \<leftarrow> vecmat e_j C_ih;
     eCG \<leftarrow> vecmat eC Gamma_hat;
     G_row \<leftarrow> row_at Gamma_hat (nvar - 1);
     b1 \<leftarrow> dot eCG G_row;
     G_ih \<leftarrow> axis2_slice G ih;
     KG \<leftarrow> matmul (smul (2 * critval * scale) (kron (tr Gamma_hat) (as_row e_j))) G_ih;
     W12_col \<leftarrow> column_at W12 (nvar - 1);
     b2 \<leftarrow> matvec KG W12_col;
     eC2 \<leftarrow> vecmat (vsmul (2 * critval * scale) e_j) C_ih;
     W2_col \<leftarrow> column_at W2 (nvar - 1);
     b3 \<leftarrow> dot eC2 W2_col;
     b \<leftarrow> item1 (map (\<lambda>x. - 2 * real T * scale * b1 + x + b3) b2);
     eC3 \<leftarrow> vecmat (vsmul (sqrt (real T) * scale) e_j) C_ih;
     c1 \<leftarrow> vecmat eC3 Gamma_hat;
     KG1 \<leftarrow> matmul (smul (critval * scale\<^sup>2) (kron (tr Gamma_hat) (as_row e_j))) G_ih;
     KG1W \<leftarrow> matmul KG1 W1;
     KG0 \<leftarrow> matmul (kron (tr Gamma_hat) (as_row e_j)) G_ih;
     c2 \<leftarrow> matmul KG1W (tr KG0);
     KG2 \<leftarrow> matmul (smul (2 * critval * scale\<^sup>2) (kron (tr Gamma_hat) (as_row e_j))) G_ih;
     KG2W \<leftarrow> matmul KG2 W12;
     KG2WC \<leftarrow> matmul KG2W (tr C_ih);
     c3 \<leftarrow> matvec KG2WC e_j;
     eC4 \<leftarrow> vecmat (vsmul (critval * scale\<^sup>2) e_j) C_ih;
     eC4W \<leftarrow> vecmat eC4 W2;
     eC4WC \<leftarrow> vecmat eC4W (tr C_ih);
     c4 \<leftarrow> dot eC4WC e_j;
     c1' \<leftarrow> broadcast_to (nrows c2) (ncols c2) (as_row (map (\<lambda>x. x\<^sup>2) c1));
     c3' \<leftarrow> broadcast_to (nrows c2) (ncols c2) (as_row c3);
     c \<leftarrow> item2 (tabulate2 (nrows c2) (ncols c2)
                    (\<lambda>r s. entry c1' r s - entry c2 r s - entry c3' r s - c4));
     let Delta = b\<^sup>2 - 4 * a * c;
     let branch = msw_case a b Delta;
     Some \<lparr>cell_ahat = a, cell_bhat = b, cell_chat = c, cell_Deltahat = Delta,
           cell_casedummy = fst branch, cell_lbound = fst (snd branch),
           cell_ubound = snd (snd branch)\<rparr>
   }"

record CI_result =
  MSWlbound :: "fl array2"
  MSWubound :: "fl array2"
  ahat :: mat
  bhat :: mat
  chat :: mat
  Deltahat :: mat
  casedummy :: mat

text \<open>\<^verbatim>\<open>out[i, j] = x\<close> for one cell.\<close>

definition set_item :: "'a::zero array2 \<Rightarrow> int \<Rightarrow> int \<Rightarrow> 'a \<Rightarrow> 'a array2 option" where
  "set_item A i j x = do {
     i' \<leftarrow> py_index (nrows A) i;
     j' \<leftarrow> py_index (ncols A) j;
     Some (tabulate2 (nrows A) (ncols A) (\<lambda>r s. if r = i' \<and> s = j' then x else entry A r s))
   }"

definition CI_dmethod ::
  "(real \<Rightarrow> real) \<Rightarrow> mat \<Rightarrow> mat \<Rightarrow> arr3 \<Rightarrow> nat \<Rightarrow> ndarr list \<Rightarrow> nat \<Rightarrow> real \<Rightarrow> real \<Rightarrow> int
     \<Rightarrow> CI_result option" where
  "CI_dmethod ppf Gamma_hat WHat G T C hori confidence scale nvar = do {
     let n = nrows Gamma_hat;
     let critval = critval_of ppf confidence;
     let W1 = slice2 WHat (None, Some (- int n)) (None, Some (- int n));
     let W2 = slice2 WHat (Some (- int n), None) (Some (- int n), None);
     let W12 = tr (slice2 WHat (Some (int (nrows W1)), None) (None, Some (int (nrows W1))));
     let cell = msw_cell_of Gamma_hat W1 W12 W2 G T C critval scale nvar;
     cells \<leftarrow> those (map (\<lambda>(j, ih). cell j ih) (List.product [0..<n] [0..<hori]));
     let stored = (\<lambda>j ih. cells ! (j * hori + ih));
     lb \<leftarrow> set_item (tabulate2 n hori (\<lambda>j ih. cell_lbound (stored j ih))) (nvar - 1) 0 (Fin scale);
     ub \<leftarrow> set_item (tabulate2 n hori (\<lambda>j ih. cell_ubound (stored j ih))) (nvar - 1) 0 (Fin scale);
     Some \<lparr>MSWlbound = lb, MSWubound = ub,
           ahat = tabulate2 n hori (\<lambda>j ih. cell_ahat (stored j ih)),
           bhat = tabulate2 n hori (\<lambda>j ih. cell_bhat (stored j ih)),
           chat = tabulate2 n hori (\<lambda>j ih. cell_chat (stored j ih)),
           Deltahat = tabulate2 n hori (\<lambda>j ih. cell_Deltahat (stored j ih)),
           casedummy = tabulate2 n hori (\<lambda>j ih. cell_casedummy (stored j ih))\<rparr>
   }"

text \<open>The value of \<^verbatim>\<open>norm.ppf\<close> at \<open>0.975\<close>, the argument for the default confidence
  \<open>0.95\<close>, to the sixteen digits the library returns; the concrete evaluations below use
  that confidence only.\<close>

definition ppf_975 :: "real \<Rightarrow> real" where
  "ppf_975 p = 1959963984540054 / 1000000000000000"

subsection \<open>\<^verbatim>\<open>CI_dmethod_standard\<close>\<close>

text \<open>
  \<^verbatim>\<open>
  def CI_dmethod_standard(Gamma_hat, WHat, G, T, C, hori=21, confidence=0.95, scale=1, nvar=1):
      n = len(Gamma_hat)
      critval = norm.ppf(1-(1-confidence)/2)**2
      e = np.eye(n)
      lambdahatcum = np.zeros((n, hori))   # and DmethodVarcum, Dmethodlboundcum, Dmethoduboundcum
      for ih in range(hori):
          for ivar in range(n):
              lambdahatcum[ivar,ih] = (scale*e[:,ivar].T @ C[ih] @ Gamma_hat / Gamma_hat[nvar-1,0])[0]
              d1 = scale * np.kron(Gamma_hat.T, e[:,ivar].T) @ G[:,:,ih]
              d2 = scale * e[:,ivar].T @ C[ih] - lambdahatcum[ivar,ih] * e[:, nvar-1].T
              d = np.concatenate([d1, d2.reshape(1,len(d2))], axis=1).T
              DmethodVarcum[ivar,ih] = d.T @ WHat @ d
              Dmethodlboundcum[ivar,ih] = lambdahatcum[ivar,ih] - ((critval/T)**.5)*(DmethodVarcum[ivar,ih]**.5)/abs(Gamma_hat[nvar-1,0])
              Dmethoduboundcum[ivar,ih] = lambdahatcum[ivar,ih] + ((critval/T)**.5)*(DmethodVarcum[ivar,ih]**.5)/abs(Gamma_hat[nvar-1,0])
              del d
      std = (DmethodVarcum**.5) / ((T**.5)*np.abs(Gamma_hat[nvar-1,0]))
      rv = {'lambdahatcum':lambdahatcum, 'DmethodVarcum':DmethodVarcum,
            'l':Dmethodlboundcum, 'u':Dmethoduboundcum, 'pluginirf':lambdahatcum,
            'pluginirfstderror':std}
      return rv
  \<close>
  With \<^verbatim>\<open>Gamma_hat[nvar-1,0] = 0\<close> every entry of every returned array is \<^verbatim>\<open>inf\<close> or
  \<^verbatim>\<open>nan\<close>: no result. Otherwise the point estimates and the variances are real numbers,
  and the bounds are not numbers exactly where the square root of a negative variance or
  the division by \<open>T = 0\<close> makes them so.
\<close>










section \<open>Gradient matrices: \<^verbatim>\<open>Gmatrices\<close>\<close>

text \<open>\<^verbatim>\<open>xs[:k]\<close> on a list.\<close>

definition py_take :: "int \<Rightarrow> 'a list \<Rightarrow> 'a list" where
  "py_take k xs = take (py_bound (length xs) k) xs"

text \<open>\<^verbatim>\<open>np.kron\<close> with a scalar operand is the product by the scalar.\<close>

definition kron_nd :: "mat \<Rightarrow> ndarr \<Rightarrow> mat" where
  "kron_nd A c = (case c of Scalar x \<Rightarrow> smul x A | Matrix B \<Rightarrow> kron A B)"

text \<open>\<^verbatim>\<open>np.concatenate((A, B), axis=0)\<close>: the column counts must agree.\<close>

definition vcat :: "mat \<Rightarrow> mat \<Rightarrow> mat" where
  "vcat A B =
     tabulate2 (nrows A + nrows B) (ncols A)
       (\<lambda>i j. if i < nrows A then entry A i j else entry B (i - nrows A) j)"

definition concatenate0 :: "mat \<Rightarrow> mat \<Rightarrow> mat option" where
  "concatenate0 A B = (if ncols A = ncols B then Some (vcat A B) else None)"

text \<open>\<^verbatim>\<open>np.zeros((r, c))\<close> with computed dimensions: a negative dimension raises
  ValueError.\<close>

definition np_zeros :: "int \<Rightarrow> int \<Rightarrow> mat option" where
  "np_zeros r c = (if r < 0 \<or> c < 0 then None else Some (zeros (nat r) (nat c)))"

text \<open>\<^verbatim>\<open>A[r0:r1, c0:c1] = B\<close>: the value is broadcast to the region.\<close>

definition set_block ::
  "mat \<Rightarrow> int option \<times> int option \<Rightarrow> int option \<times> int option \<Rightarrow> mat \<Rightarrow> mat option" where
  "set_block A rs cs B =
     (let r0 = py_lo (nrows A) (fst rs); r1 = py_hi (nrows A) (snd rs);
          c0 = py_lo (ncols A) (fst cs); c1 = py_hi (ncols A) (snd cs)
      in do {
        B' \<leftarrow> broadcast_to (r1 - r0) (c1 - c0) B;
        Some (tabulate2 (nrows A) (ncols A)
          (\<lambda>i j. if r0 \<le> i \<and> i < r1 \<and> c0 \<le> j \<and> j < c1
                 then entry B' (i - r0) (j - c0) else entry A i j))
      })"

text \<open>\<^verbatim>\<open>np.linalg.matrix_power(A, h)\<close> for \<open>h \<ge> 0\<close>: LinAlgError unless \<open>A\<close> is square.\<close>

definition matrix_power :: "mat \<Rightarrow> nat \<Rightarrow> mat option" where
  "matrix_power A h = (if nrows A = ncols A then Some (mat_pow A h) else None)"

text \<open>\<^verbatim>\<open>M.reshape(a, b, c, order='F')\<close>: the entries are read and written with the first
  index running fastest.\<close>

definition reshape_F :: "mat \<Rightarrow> nat \<Rightarrow> nat \<Rightarrow> nat \<Rightarrow> arr3 option" where
  "reshape_F M a b c =
     (if nrows M * ncols M = a * b * c
      then Some (tabulate3 a b c
             (\<lambda>x y z. entry M ((x + a * (y + b * z)) mod nrows M)
                              ((x + a * (y + b * z)) div nrows M)))
      else None)"

text \<open>\<^verbatim>\<open>np.moveaxis(A, [0, 1, 2], [1, 0, 2])\<close> exchanges the first two axes.\<close>

definition moveaxis_102 :: "arr3 \<Rightarrow> arr3" where
  "moveaxis_102 A = tabulate3 (dim1 A) (dim0 A) (dim2 A) (\<lambda>x y z. entry3 A y x z)"

text \<open>\<^verbatim>\<open>G[:, :, i] = M\<close>\<close>

definition set_axis2_slice :: "arr3 \<Rightarrow> nat \<Rightarrow> mat \<Rightarrow> arr3 option" where
  "set_axis2_slice G i M = do {
     M' \<leftarrow> broadcast_to (dim0 G) (dim1 G) M;
     if i < dim2 G
     then Some (tabulate3 (dim0 G) (dim1 G) (dim2 G)
            (\<lambda>x y z. if z = i then entry M' x y else entry3 G x y z))
     else None
   }"

text \<open>\<^verbatim>\<open>np.cumsum(G, 2)\<close>: the running sum along the last axis.\<close>

fun running_sum :: "(nat \<Rightarrow> real) \<Rightarrow> nat \<Rightarrow> real" where
  "running_sum f 0 = f 0"
| "running_sum f (Suc k) = running_sum f k + f (Suc k)"

definition cumsum2 :: "arr3 \<Rightarrow> arr3" where
  "cumsum2 G =
     tabulate3 (dim0 G) (dim1 G) (dim2 G) (\<lambda>x y z. running_sum (\<lambda>k. entry3 G x y k) z)"

text \<open>
  \<^verbatim>\<open>
  def Gmatrices(betas, p, hori=21):
      n = len(betas)
      C = MA_representation(betas, p, hori)[1:]
      C_aux = ([np.eye(n)] + C[:hori])[:hori-1]
      J = np.concatenate([np.eye(n), np.zeros((n, (p - 1) * n))], axis=1)
      Alut = np.concatenate([betas, np.zeros((len(betas.T) - len(betas), len(betas.T)))], axis=0)
      Alut[len(betas):, :len(Alut.T) - len(betas)] = np.eye(len(Alut[len(betas):, :]))
      AJ = [np.linalg.matrix_power(Alut, h) @ J.T for h in range(hori - 1)]
      AJp = np.concatenate(AJ, axis=1).T
      AJaux = []
      for i in range(hori - 1):
          l = np.kron(AJp[:n * (hori - i), :], C_aux[i])
          Z = np.zeros((AJp.shape[0] * n, AJp.shape[1] * n))
          Z[i * n**2:, :] = l[:len(Z) - n**2 * i, :]
          AJaux.append(Z)
      G0 = np.array(AJaux).sum(axis=0).T.reshape(p * n**2, n**2, hori - 1, order='F')
      Gaux = np.moveaxis(G0, [0, 1, 2], [1, 0, 2])
      G = np.zeros((Gaux.shape[0], Gaux.shape[1], Gaux.shape[2] + 1))
      for i in range(1, Gaux.shape[2] + 1):
          G[:, :, i] = Gaux[:, :, i - 1]
      Gcum = np.cumsum(G, 2)
      return {'G': G, 'Gcum': Gcum}
  \<close>
  The list \<open>AJaux\<close> is not empty where its sum is taken (an empty \<open>AJ\<close> has already raised in
  \<^verbatim>\<open>np.concatenate\<close>), so the sum is a matrix.
\<close>

fun G_fill :: "arr3 \<Rightarrow> nat list \<Rightarrow> arr3 \<Rightarrow> arr3 option" where
  "G_fill Gaux [] G = Some G"
| "G_fill Gaux (i # is) G = do {
     M \<leftarrow> axis2_slice Gaux (i - 1);
     G' \<leftarrow> set_axis2_slice G i M;
     G_fill Gaux is G'
   }"

definition Gmatrices :: "mat \<Rightarrow> nat \<Rightarrow> nat \<Rightarrow> (arr3 \<times> arr3) option" where
  "Gmatrices betas p hori = do {
     let n = nrows betas;
     C0 \<leftarrow> MA_representation betas p hori;
     let C = drop 1 C0;
     let C_aux = py_take (int hori - 1) (Matrix (eye n) # py_take (int hori) C);
     Jz \<leftarrow> np_zeros (int n) ((int p - 1) * int n);
     J \<leftarrow> concatenate1 [eye n, Jz];
     Az \<leftarrow> np_zeros (int (ncols betas) - int (nrows betas)) (int (ncols betas));
     Alut \<leftarrow> concatenate0 betas Az;
     Alut \<leftarrow> set_block Alut (Some (int (nrows betas)), None)
               (None, Some (int (ncols Alut) - int (nrows betas)))
               (eye (nrows (slice2 Alut (Some (int (nrows betas)), None) (None, None))));
     AJ \<leftarrow> those (map (\<lambda>h. do { P \<leftarrow> matrix_power Alut h; matmul P (tr J) }) [0..<hori - 1]);
     AJc \<leftarrow> concatenate1 AJ;
     let AJp = tr AJc;
     AJaux \<leftarrow> those (map (\<lambda>i. do {
         c \<leftarrow> (if i < length C_aux then Some (C_aux ! i) else None);
         let l = kron_nd (slice2 AJp (None, Some (int (n * (hori - i)))) (None, None)) c;
         let Z = zeros (nrows AJp * n) (ncols AJp * n);
         set_block Z (Some (int (i * n\<^sup>2)), None) (None, None)
           (slice2 l (None, Some (int (nrows Z) - int (n\<^sup>2 * i))) (None, None))
       }) [0..<hori - 1]);
     S \<leftarrow> sum_axis0 AJaux;
     S \<leftarrow> (case S of Scalar x \<Rightarrow> None | Matrix M \<Rightarrow> Some M);
     G0 \<leftarrow> reshape_F (tr S) (p * n\<^sup>2) (n\<^sup>2) (hori - 1);
     let Gaux = moveaxis_102 G0;
     let G = tabulate3 (dim0 Gaux) (dim1 Gaux) (dim2 Gaux + 1) (\<lambda>x y z. 0);
     G \<leftarrow> G_fill Gaux [1..<dim2 Gaux + 1] G;
     Some (G, cumsum2 G)
   }"

text \<open>The shape of a three-axis array, and the shape of \<open>G\<close> in the words of the
  specification: \<open>(n p n) \<times> n\<^sup>2 \<times> horizon\<close>.\<close>

definition shape3 :: "arr3 \<Rightarrow> nat \<times> nat \<times> nat" where
  "shape3 A = (dim0 A, dim1 A, dim2 A)"

definition spec_G_shape :: "nat \<Rightarrow> nat \<Rightarrow> nat \<Rightarrow> nat \<times> nat \<times> nat" where
  "spec_G_shape n p hori = (n * p * n, n\<^sup>2, hori)"

section \<open>Instrument relevance: \<^verbatim>\<open>get_gamma_wald\<close>\<close>

text \<open>\<^verbatim>\<open>np.linalg.inv\<close> is the library's: the inversion is a parameter \<open>minv\<close> (\<open>None\<close>:
  LinAlgError on a singular matrix). The library raises on an array that is not square and
  returns an inverse of the shape of its argument.\<close>

definition np_inv :: "(mat \<Rightarrow> mat option) \<Rightarrow> mat \<Rightarrow> mat option" where
  "np_inv minv M =
     (if nrows M \<noteq> ncols M then None
      else do {
        R \<leftarrow> minv M;
        if nrows R = nrows M \<and> ncols R = ncols M then Some R else None
      })"

text \<open>\<^verbatim>\<open>np.concatenate(ms, axis=0)\<close> on a list: the empty list raises ValueError.\<close>

definition concatenate0_list :: "mat list \<Rightarrow> mat option" where
  "concatenate0_list ms =
     (case ms of
        [] \<Rightarrow> None
      | m # ms' \<Rightarrow> if list_all (\<lambda>m'. ncols m' = ncols m) ms' then Some (foldl vcat m ms') else None)"

text \<open>\<^verbatim>\<open>np.array(ms).mean(axis=0)\<close> for matrices of one shape. The mean of the empty list
  is \<^verbatim>\<open>nan\<close>.\<close>

definition mean_axis0 :: "mat list \<Rightarrow> mat option" where
  "mean_axis0 ms =
     (case ms of
        [] \<Rightarrow> None
      | m # ms' \<Rightarrow>
          if list_all (\<lambda>m'. nrows m' = nrows m \<and> ncols m' = ncols m) ms'
          then Some (tabulate2 (nrows m) (ncols m)
                 (\<lambda>i j. (\<Sum>m'\<leftarrow>m # ms'. entry m' i j) / real (length (m # ms'))))
          else None)"

text \<open>\<^verbatim>\<open>A - B\<close>, the right-hand side broadcast to the shape of \<open>A\<close>.\<close>

definition minus_mat :: "mat \<Rightarrow> mat \<Rightarrow> mat option" where
  "minus_mat A B = do {
     B' \<leftarrow> broadcast_to (nrows A) (ncols A) B;
     Some (tabulate2 (nrows A) (ncols A) (\<lambda>i j. entry A i j - entry B' i j))
   }"

text \<open>\<^verbatim>\<open>M.reshape(1, N, order='F')\<close>: the columns of \<open>M\<close> one after the other.\<close>

definition reshape_row_F :: "mat \<Rightarrow> nat \<Rightarrow> mat option" where
  "reshape_row_F M N =
     (if nrows M * ncols M = N
      then Some (tabulate2 1 N (\<lambda>i j. entry M (j mod nrows M) (j div nrows M)))
      else None)"

text \<open>
  \<^verbatim>\<open>
  def get_gamma_wald(X, Z, eta, p, n, nvar):
      Gamma_hat = ((Z.T @ eta) / len(eta)).T
      matagg = np.concatenate((X, eta, Z), axis=1).T
      auxeta = np.zeros((len(eta.T), len(matagg), len(matagg.T)))
      val = np.array([eta[i, np.newaxis].T @ matagg[:, i, np.newaxis].T for i in range(len(matagg.T))])
      val_mean = val.mean(axis=0)
      val_minus_mean = val - val_mean
      for i in range(auxeta.shape[2]):
          auxeta[:, :, i] = val_minus_mean[i, :, :]
      AuxHAC2 = [auxeta[:, :, i].reshape(1, np.multiply(*auxeta[:, :, 0].shape), order='F')
                 for i in range(auxeta.shape[2])]
      AuxHAC2 = np.concatenate(AuxHAC2, axis=0)
      AuxHAC3 = NW_hac_STATA(AuxHAC2, 0)
      I = np.eye(len(eta.T))
      V = np.kron(I[0, :], I)
      for i in range(1, len(eta.T)):
          V = np.concatenate((V, np.kron(I[i, :], I[i:, :])), axis=0)
      Q1 = X.T @ X / len(X)
      Q2 = Z.T @ X / len(X)
      m = X.shape[1] - (n * p)
      Shat = np.zeros((len(Q1) * eta.shape[1] + len(V), len(Q1) * eta.shape[1] + len(V.T) + n))
      A = np.kron(np.concatenate((np.zeros((n * p, m)), np.eye(n * p)), axis=1) @ np.linalg.inv(Q1),
                  np.eye(n))
      Shat[0:A.shape[0], 0:A.shape[1]] = A
      Shat[A.shape[0]:A.shape[0] + V.shape[0], A.shape[1]:A.shape[1] + V.shape[1]] = V
      B = -np.kron(Q2 @ np.linalg.inv(Q1), np.eye(n))
      Shat[-B.shape[0]:, 0:B.shape[1]] = B
      C = np.eye(B.shape[0])
      Shat[-C.shape[0]:, -C.shape[1]:] = C
      WHataux = Shat @ AuxHAC3 @ Shat.T
      L = len(Q1) * len(C)
      WHat = np.zeros((L, L))
      WHat[:-len(C), :-len(C)] = WHataux[:L - len(C), :L - len(C)]
      WHat[-len(C):, -len(C):] = WHataux[-len(C):, -len(C):]
      WHat[-len(C):, :L - len(C)] = WHataux[-len(C):, :L - len(C)]
      WHat[:-len(C), L - len(C):] = WHat[-len(C):, :L - len(C)].T
      place = -len(C) + nvar - 1
      wald = (len(eta)) * Gamma_hat[nvar - 1, 0] ** 2 / WHat[place, place]
      return WHat, wald, Gamma_hat
  \<close>
  The moment stack: one outer product \<open>eta[i]\<^sup>T matagg[:, i]\<^sup>T\<close> per observation, the mean over
  the observations taken off, each matrix flattened column by column into one row of
  \<open>AuxHAC2\<close>.
\<close>

fun auxeta_fill :: "mat list \<Rightarrow> nat list \<Rightarrow> arr3 \<Rightarrow> arr3 option" where
  "auxeta_fill vs [] A = Some A"
| "auxeta_fill vs (i # is) A = do {
     v \<leftarrow> (if i < length vs then Some (vs ! i) else None);
     A' \<leftarrow> set_axis2_slice A i v;
     auxeta_fill vs is A'
   }"

definition moment_stack :: "mat \<Rightarrow> mat \<Rightarrow> mat \<Rightarrow> mat option" where
  "moment_stack X Z eta = do {
     XeZ \<leftarrow> concatenate1 [X, eta, Z];
     let matagg = tr XeZ;
     let auxeta = tabulate3 (nrows (tr eta)) (nrows matagg) (nrows (tr matagg)) (\<lambda>x y z. 0);
     val \<leftarrow> those (map (\<lambda>i. do {
         e \<leftarrow> row_at eta (int i);
         a \<leftarrow> column_at matagg (int i);
         matmul (tr (as_row e)) (tr (tr (as_row a)))
       }) [0..<nrows (tr matagg)]);
     val_mean \<leftarrow> mean_axis0 val;
     val_minus_mean \<leftarrow> those (map (\<lambda>v. minus_mat v val_mean) val);
     auxeta \<leftarrow> auxeta_fill val_minus_mean [0..<dim2 auxeta] auxeta;
     AuxHAC2 \<leftarrow> those (map (\<lambda>i. do {
         M \<leftarrow> axis2_slice auxeta i;
         M0 \<leftarrow> axis2_slice auxeta 0;
         reshape_row_F M (nrows M0 * ncols M0)
       }) [0..<dim2 auxeta]);
     concatenate0_list AuxHAC2
   }"

text \<open>The selector \<open>V\<close> of the distinct entries of a symmetric matrix.\<close>

fun V_loop :: "mat \<Rightarrow> nat list \<Rightarrow> mat \<Rightarrow> mat option" where
  "V_loop I [] V = Some V"
| "V_loop I (i # is) V = do {
     r \<leftarrow> row_at I (int i);
     V' \<leftarrow> concatenate0 V (kron (as_row r) (slice2 I (Some (int i), None) (None, None)));
     V_loop I is V'
   }"

definition selector_V :: "nat \<Rightarrow> mat option" where
  "selector_V k = do {
     let I = eye k;
     r \<leftarrow> row_at I 0;
     V_loop I [1..<k] (kron (as_row r) I)
   }"

text \<open>The four assignments that keep the blocks of \<open>WHataux\<close>.\<close>

definition WHat_of :: "mat \<Rightarrow> nat \<Rightarrow> nat \<Rightarrow> mat option" where
  "WHat_of WHataux L lenC = do {
     let WHat = zeros L L;
     WHat \<leftarrow> set_block WHat (None, Some (- int lenC)) (None, Some (- int lenC))
               (slice2 WHataux (None, Some (int L - int lenC)) (None, Some (int L - int lenC)));
     WHat \<leftarrow> set_block WHat (Some (- int lenC), None) (Some (- int lenC), None)
               (slice2 WHataux (Some (- int lenC), None) (Some (- int lenC), None));
     WHat \<leftarrow> set_block WHat (Some (- int lenC), None) (None, Some (int L - int lenC))
               (slice2 WHataux (Some (- int lenC), None) (None, Some (int L - int lenC)));
     set_block WHat (None, Some (- int lenC)) (Some (int L - int lenC), None)
       (tr (slice2 WHat (Some (- int lenC), None) (None, Some (int L - int lenC))))
   }"

text \<open>The result. \<open>gw_wald\<close> is \<open>None\<close> when the division is by zero (\<^verbatim>\<open>inf\<close> or
  \<^verbatim>\<open>nan\<close>, with a warning: the call still returns).\<close>

record gamma_wald =
  gw_WHat :: mat
  gw_wald :: "real option"
  gw_Gamma_hat :: mat

definition get_gamma_wald ::
  "(mat \<Rightarrow> mat option) \<Rightarrow> mat \<Rightarrow> mat \<Rightarrow> mat \<Rightarrow> nat \<Rightarrow> nat \<Rightarrow> int \<Rightarrow> gamma_wald option" where
  "get_gamma_wald minv X Z eta p n nvar = do {
     ZE \<leftarrow> matmul (tr Z) eta;
     ZE \<leftarrow> divide_by ZE (real (nrows eta));
     let Gamma_hat = tr ZE;
     AuxHAC2 \<leftarrow> moment_stack X Z eta;
     AuxHAC3 \<leftarrow> NW_hac_STATA AuxHAC2 0;
     V \<leftarrow> selector_V (nrows (tr eta));
     XX \<leftarrow> matmul (tr X) X;
     Q1 \<leftarrow> divide_by XX (real (nrows X));
     ZX \<leftarrow> matmul (tr Z) X;
     Q2 \<leftarrow> divide_by ZX (real (nrows X));
     let m = int (ncols X) - int (n * p);
     let Shat = zeros (nrows Q1 * ncols eta + nrows V) (nrows Q1 * ncols eta + nrows (tr V) + n);
     Zm \<leftarrow> np_zeros (int (n * p)) m;
     Sel \<leftarrow> concatenate1 [Zm, eye (n * p)];
     Q1i \<leftarrow> np_inv minv Q1;
     SQ \<leftarrow> matmul Sel Q1i;
     let A = kron SQ (eye n);
     Shat \<leftarrow> set_block Shat (Some 0, Some (int (nrows A))) (Some 0, Some (int (ncols A))) A;
     Shat \<leftarrow> set_block Shat (Some (int (nrows A)), Some (int (nrows A) + int (nrows V)))
               (Some (int (ncols A)), Some (int (ncols A) + int (ncols V))) V;
     Q1i \<leftarrow> np_inv minv Q1;
     QQ \<leftarrow> matmul Q2 Q1i;
     let B = smul (- 1) (kron QQ (eye n));
     Shat \<leftarrow> set_block Shat (Some (- int (nrows B)), None) (Some 0, Some (int (ncols B))) B;
     let C = eye (nrows B);
     Shat \<leftarrow> set_block Shat (Some (- int (nrows C)), None) (Some (- int (ncols C)), None) C;
     SD \<leftarrow> matmul Shat AuxHAC3;
     WHataux \<leftarrow> matmul SD (tr Shat);
     let L = nrows Q1 * nrows C;
     WHat \<leftarrow> WHat_of WHataux L (nrows C);
     let place = - int (nrows C) + nvar - 1;
     g \<leftarrow> index2 Gamma_hat (nvar - 1) 0;
     w \<leftarrow> index2 WHat place place;
     Some \<lparr>gw_WHat = WHat,
           gw_wald = (if w = 0 then None else Some (real (nrows eta) * g\<^sup>2 / w)),
           gw_Gamma_hat = Gamma_hat\<rparr>
   }"

text \<open>The inverse of a 1-by-1 or 2-by-2 matrix in closed form: the value of \<open>minv\<close> in
  concrete evaluations.\<close>

definition inv_2x2 :: "mat \<Rightarrow> mat option" where
  "inv_2x2 M =
     (if nrows M = 1 \<and> ncols M = 1
      then (if entry M 0 0 = 0 then None else Some (of_rows 1 [[1 / entry M 0 0]]))
      else if nrows M = 2 \<and> ncols M = 2
      then (let d = entry M 0 0 * entry M 1 1 - entry M 0 1 * entry M 1 0
            in if d = 0 then None
               else Some (of_rows 2 [[entry M 1 1 / d, - entry M 0 1 / d],
                                     [- entry M 1 0 / d, entry M 0 0 / d]]))
      else None)"





section \<open>Arrays: shapes and entries\<close>

lemma nrows_tabulate2 [simp]: "nrows (tabulate2 r c f) = r"
  by (simp add: tabulate2_def)

lemma ncols_tabulate2 [simp]: "ncols (tabulate2 r c f) = c"
  by (simp add: tabulate2_def)

lemma entry_tabulate2 [simp]: "i < r \<Longrightarrow> j < c \<Longrightarrow> entry (tabulate2 r c f) i j = f i j"
  by (simp add: tabulate2_def)

lemma tabulate2_cong:
  "r = r' \<Longrightarrow> c = c' \<Longrightarrow> (\<And>i j. i < r \<Longrightarrow> j < c \<Longrightarrow> f i j = g i j)
     \<Longrightarrow> tabulate2 r c f = tabulate2 r' c' g"
  by (auto simp: tabulate2_def fun_eq_iff)

lemma shape_tr [simp]: "nrows (tr A) = ncols A" "ncols (tr A) = nrows A"
  by (simp_all add: tr_def)

lemma entry_tr [simp]: "i < ncols A \<Longrightarrow> j < nrows A \<Longrightarrow> entry (tr A) i j = entry A j i"
  by (simp add: tr_def)

lemma shape_mm [simp]: "nrows (mm A B) = nrows A" "ncols (mm A B) = ncols B"
  by (simp_all add: mm_def)

lemma shape_smul [simp]: "nrows (smul c A) = nrows A" "ncols (smul c A) = ncols A"
  by (simp_all add: smul_def)

lemma gram_second_moment:
  "0 < nrows V \<Longrightarrow> smul (1 / real (nrows V)) (mm (tr V) V) = second_moment V"
  unfolding smul_def second_moment_def
  by (rule tabulate2_cong) (simp_all add: mm_def mult.commute)

section \<open>HAC covariance: theorems\<close>

text \<open>
  C7. For every \<open>T\<close>-by-\<open>d\<close> array \<open>V\<close> with at least one row, \<open>NW_hac_STATA V 0\<close> returns
  (no error of any kind, the loop body is never entered) and its result is exactly the
  sample second moment \<open>V\<^sup>T V / T\<close>.
\<close>

theorem NW_hac_STATA_lag0:
  "0 < nrows V \<Longrightarrow> NW_hac_STATA V 0 = Some (second_moment V)"
  by (simp add: NW_hac_STATA_def matmul_def divide_by_def gram_second_moment)

theorem NW_hac_STATA_lag0_witness:
  "NW_hac_STATA (of_rows 1 [[1], [3]]) 0 = Some (second_moment (of_rows 1 [[1], [3]]))
   \<and> to_rows (second_moment (of_rows 1 [[1], [3 :: real]])) = [[5]]"
  using NW_hac_STATA_lag0 [of "of_rows 1 [[1], [3]]"]
  by (simp add: of_rows_def to_rows_def second_moment_def)

lemma sigma_cov_k_0: "0 < nrows V \<Longrightarrow> sigma_cov_k V 0 = Some (zeros (ncols V) (ncols V))"
  unfolding sigma_cov_k_def
  apply (simp add: slice2_def py_lo_def py_hi_def py_bound_def matmul_def divide_by_def Let_def)
  unfolding smul_def zeros_def
  apply (rule tabulate2_cong)
  apply (simp_all add: mm_def)
  done

lemma iadd_zero_term:
  "iadd (tabulate2 d d f) (mm (smul w (zeros d d)) (tr (zeros d d))) = Some (tabulate2 d d f)"
  unfolding iadd_def broadcast_to_def
  apply (simp add: zeros_def)
  apply (rule tabulate2_cong)
    apply (simp_all add: mm_def smul_def)
  done

text \<open>With one lag the loop runs for \<open>n = 0\<close> only, and \<^verbatim>\<open>V[0:-0]\<close> is the empty slice:
  the term added is the zero matrix.\<close>

lemma NW_hac_STATA_lag1: "0 < nrows V \<Longrightarrow> NW_hac_STATA V 1 = Some (second_moment V)"
  apply (simp add: NW_hac_STATA_def matmul_def divide_by_def gram_second_moment sigma_cov_k_0)
  apply (simp add: zeros_def matmul_def)
  apply (fold zeros_def)
  apply (simp add: second_moment_def iadd_zero_term)
  done

text \<open>
  C2 (the source departs from the claim). On the two observations \<open>1, 1\<close> of one variable
  with one lag, \<open>NW_hac_STATA\<close> returns \<open>[[1]]\<close>, the plain second moment \<open>V\<^sup>T V / T\<close>: no
  lag-1 term is added, although the lag-1 cross product of the data is \<open>1/2\<close> and its
  Bartlett weight \<open>1 - 1/2\<close> is not zero. The loop runs over \<open>0, ..., lags - 1\<close>
  instead of \<open>1, ..., lags\<close>, and its term is the product of a truncated second moment
  with its own transpose, not a cross product of the data with its lag.
\<close>

theorem NW_hac_STATA_lag1_adds_nothing:
  "map_option to_rows (NW_hac_STATA (of_rows 1 [[1], [1]]) 1) = Some [[1]]
   \<and> to_rows (lagged_cross_product (of_rows 1 [[1], [1]]) 1) = [[1 / 2]]"
proof -
  have "NW_hac_STATA (of_rows 1 [[1], [1]]) 1 = Some (second_moment (of_rows 1 [[1], [1]]))"
    by (rule NW_hac_STATA_lag1) (simp add: of_rows_def)
  then show ?thesis
    by (simp add: of_rows_def to_rows_def second_moment_def lagged_cross_product_def)
qed

section \<open>Moving-average representation: theorems\<close>

lemma those_map_Some:
  "(\<And>x. x \<in> set xs \<Longrightarrow> f x = Some (g x)) \<Longrightarrow> those (map f xs) = Some (map g xs)"
  by (induction xs) simp_all

lemma py_bound_nat [simp]: "py_bound n (int k) = min n k"
  by (simp add: py_bound_def)

lemma slice2_cols:
  "slice2 A (None, None) (Some (int a), Some (int b)) =
     tabulate2 (nrows A) (min (ncols A) b - min (ncols A) a) (\<lambda>i j. entry A i (min (ncols A) a + j))"
  by (simp add: slice2_def py_lo_def py_hi_def Let_def)

lemma length_lag_blocks [simp]: "length (lag_blocks betas n p) = p"
  by (simp add: lag_blocks_def)

lemma lag_blocks_nth:
  assumes "i < p" "n * p \<le> ncols betas"
  shows "lag_blocks betas n p ! i = tabulate2 (nrows betas) n (\<lambda>r c. entry betas r (n * i + c))"
proof -
  have "n * (i + 1) \<le> n * p" using assms(1) by (intro mult_le_mono2) simp
  then have le: "n * i \<le> ncols betas" "n * (i + 1) \<le> ncols betas" using assms(2) by simp_all
  have "lag_blocks betas n p ! i =
      slice2 betas (None, None) (Some (int (n * i)), Some (int (n * (i + 1))))"
    using assms(1) by (simp add: lag_blocks_def del: of_nat_mult of_nat_add)
  also have "\<dots> = tabulate2 (nrows betas) n (\<lambda>r c. entry betas r (n * i + c))"
    unfolding slice2_cols using le by (simp add: min_absorb2)
  finally show ?thesis .
qed

lemma shape_lag_block:
  assumes "i < p" "n * p \<le> ncols betas"
  shows "nrows (lag_blocks betas n p ! i) = nrows betas" "ncols (lag_blocks betas n p ! i) = n"
  using lag_blocks_nth [OF assms] by simp_all


lemma sum_axis0_square:
  "ms \<noteq> [] \<Longrightarrow> (\<forall>m\<in>set ms. nrows m = n \<and> ncols m = n)
     \<Longrightarrow> sum_axis0 ms = Some (Matrix (matsum n ms))"
  by (cases ms) (simp_all add: sum_axis0_def matsum_def list_all_iff)

lemma MA_products:
  assumes A: "\<forall>a\<in>set A. nrows a = n \<and> ncols a = n"
    and Cs: "\<forall>C\<in>set Cs. nrows C = n \<and> ncols C = n" "length Cs = m"
  shows "those (map (\<lambda>(a, c). matmul_nd a c) (zip (take m A) (rev (map Matrix Cs))))
           = Some (map (\<lambda>j. mm (A ! j) (Cs ! (m - 1 - j))) [0..<min m (length A)])"
proof -
  let ?q = "min m (length A)"
  have zip_eq: "zip (take m A) (rev (map Matrix Cs))
       = map (\<lambda>j. (A ! j, Matrix (Cs ! (m - 1 - j)))) [0..<?q]"
  proof (rule nth_equalityI)
    show "length (zip (take m A) (rev (map Matrix Cs))) = length (map (\<lambda>j. (A ! j, Matrix (Cs ! (m - 1 - j)))) [0..<?q])"
      using Cs(2) by simp
  next
    fix i assume "i < length (zip (take m A) (rev (map Matrix Cs)))"
    then have i: "i < m" "i < length A" using Cs(2) by simp_all
    then have "rev (map Matrix Cs) ! i = Matrix (Cs ! (m - 1 - i))"
      using Cs(2) by (simp add: rev_nth)
    then show "zip (take m A) (rev (map Matrix Cs)) ! i = map (\<lambda>j. (A ! j, Matrix (Cs ! (m - 1 - j)))) [0..<?q] ! i"
      using i Cs(2) by simp
  qed
  have "those (map ((\<lambda>(a, c). matmul_nd a c) \<circ> (\<lambda>j. (A ! j, Matrix (Cs ! (m - 1 - j))))) [0..<?q])
      = Some (map (\<lambda>j. mm (A ! j) (Cs ! (m - 1 - j))) [0..<?q])"
  proof (rule those_map_Some)
    fix j assume "j \<in> set [0..<?q]"
    then have j: "j < m" "j < length A" by simp_all
    then have "A ! j \<in> set A" "Cs ! (m - 1 - j) \<in> set Cs" using Cs(2) by simp_all
    then show "((\<lambda>(a, c). matmul_nd a c) \<circ> (\<lambda>j. (A ! j, Matrix (Cs ! (m - 1 - j))))) j
        = Some (mm (A ! j) (Cs ! (m - 1 - j)))"
      using A Cs(1) by (simp add: matmul_nd_def matmul_def)
  qed
  then show ?thesis by (simp add: zip_eq)
qed

lemma MA_step:
  assumes A: "\<forall>a\<in>set A. nrows a = n \<and> ncols a = n" "1 \<le> length A"
    and Cs: "\<forall>C\<in>set Cs. nrows C = n \<and> ncols C = n" "length Cs = m" "1 \<le> m"
  shows "MA_loop A (m # ms) (map Matrix Cs)
     = MA_loop A ms (map Matrix (Cs @ [matsum n (map (\<lambda>j. mm (A ! j) (Cs ! (m - 1 - j))) [0..<min m (length A)])]))"
proof -
  let ?ps = "map (\<lambda>j. mm (A ! j) (Cs ! (m - 1 - j))) [0..<min m (length A)]"
  have ne: "?ps \<noteq> []" using A(2) Cs(3) by (cases A) auto
  have sh: "\<forall>P\<in>set ?ps. nrows P = n \<and> ncols P = n"
    using A(1) Cs(1,2) by auto
  show ?thesis
    using MA_products [OF A(1) Cs(1,2)] sum_axis0_square [OF ne sh] by simp
qed

lemma shape_matsum [simp]: "nrows (matsum n ms) = n" "ncols (matsum n ms) = n"
  by (simp_all add: matsum_def)

lemma MA_loop_invariant:
  assumes A: "\<forall>a\<in>set A. nrows a = n \<and> ncols a = n" "1 \<le> length A"
  shows "length Cs = m \<Longrightarrow> 1 \<le> m \<Longrightarrow> \<forall>C\<in>set Cs. nrows C = n \<and> ncols C = n \<Longrightarrow>
     \<exists>Cs'. MA_loop A [m..<H] (map Matrix Cs) = Some (map Matrix Cs')
        \<and> length Cs' = max m H \<and> take m Cs' = Cs
        \<and> (\<forall>C\<in>set Cs'. nrows C = n \<and> ncols C = n)
        \<and> (\<forall>k. m \<le> k \<and> k < H \<longrightarrow>
              Cs' ! k = matsum n (map (\<lambda>j. mm (A ! j) (Cs' ! (k - 1 - j))) [0..<min k (length A)]))"
proof (induction "H - m" arbitrary: m Cs)
  case 0
  then have "H \<le> m" by simp
  then have "[m..<H] = []" "max m H = m" "\<And>k. \<not> (m \<le> k \<and> k < H)" by auto
  then show ?case using "0.prems" by (intro exI [of _ Cs]) auto
next
  case (Suc d)
  let ?Cm = "matsum n (map (\<lambda>j. mm (A ! j) (Cs ! (m - 1 - j))) [0..<min m (length A)])"
  from Suc.hyps(2) have lt: "m < H" by simp
  then have upt: "[m..<H] = m # [Suc m..<H]" by (simp add: upt_conv_Cons)
  have step: "MA_loop A [m..<H] (map Matrix Cs) = MA_loop A [Suc m..<H] (map Matrix (Cs @ [?Cm]))"
    unfolding upt using MA_step [OF A Suc.prems(3) Suc.prems(1) Suc.prems(2)] .
  have "d = H - Suc m" using Suc.hyps(2) by simp
  moreover have "length (Cs @ [?Cm]) = Suc m" using Suc.prems(1) by simp
  moreover have "1 \<le> Suc m" by simp
  moreover have "\<forall>C\<in>set (Cs @ [?Cm]). nrows C = n \<and> ncols C = n"
    using Suc.prems(3) by simp
  ultimately obtain Cs' where Cs':
    "MA_loop A [Suc m..<H] (map Matrix (Cs @ [?Cm])) = Some (map Matrix Cs')"
    "length Cs' = max (Suc m) H" "take (Suc m) Cs' = Cs @ [?Cm]"
    "\<forall>C\<in>set Cs'. nrows C = n \<and> ncols C = n"
    "\<forall>k. Suc m \<le> k \<and> k < H \<longrightarrow>
       Cs' ! k = matsum n (map (\<lambda>j. mm (A ! j) (Cs' ! (k - 1 - j))) [0..<min k (length A)])"
    using Suc.hyps(1) [of "Suc m" "Cs @ [?Cm]"] by blast
  have pre: "\<And>i. i \<le> m \<Longrightarrow> Cs' ! i = (Cs @ [?Cm]) ! i"
  proof -
    fix i assume "i \<le> m"
    then have "take (Suc m) Cs' ! i = Cs' ! i" by simp
    then show "Cs' ! i = (Cs @ [?Cm]) ! i" using Cs'(3) by simp
  qed
  have tk: "take m Cs' = Cs"
  proof -
    have "take m (take (Suc m) Cs') = take m (Cs @ [?Cm])" using Cs'(3) by simp
    then show ?thesis using Suc.prems(1) by (simp add: min_def)
  qed
  have at_m: "Cs' ! m = matsum n (map (\<lambda>j. mm (A ! j) (Cs' ! (m - 1 - j))) [0..<min m (length A)])"
  proof -
    have "Cs' ! m = ?Cm" using pre [of m] Suc.prems(1) by (simp add: nth_append)
    moreover have "map (\<lambda>j. mm (A ! j) (Cs ! (m - 1 - j))) [0..<min m (length A)]
        = map (\<lambda>j. mm (A ! j) (Cs' ! (m - 1 - j))) [0..<min m (length A)]"
    proof (rule map_cong [OF refl])
      fix j assume "j \<in> set [0..<min m (length A)]"
      then have "m - 1 - j < m" using Suc.prems(2) by simp
      then have "Cs' ! (m - 1 - j) = Cs ! (m - 1 - j)"
        using pre [of "m - 1 - j"] Suc.prems(1) by (simp add: nth_append)
      then show "mm (A ! j) (Cs ! (m - 1 - j)) = mm (A ! j) (Cs' ! (m - 1 - j))" by simp
    qed
    ultimately show ?thesis by (simp only:)
  qed
  have rec: "\<forall>k. m \<le> k \<and> k < H \<longrightarrow>
       Cs' ! k = matsum n (map (\<lambda>j. mm (A ! j) (Cs' ! (k - 1 - j))) [0..<min k (length A)])"
  proof (intro allI impI)
    fix k assume k: "m \<le> k \<and> k < H"
    show "Cs' ! k = matsum n (map (\<lambda>j. mm (A ! j) (Cs' ! (k - 1 - j))) [0..<min k (length A)])"
    proof (cases "k = m")
      case True
      then show ?thesis using at_m by simp
    next
      case False
      then have "Suc m \<le> k \<and> k < H" using k by simp
      then show ?thesis using Cs'(5) by blast
    qed
  qed
  have len: "length Cs' = max m H" using Cs'(2) lt by (simp add: max_def)
  show ?case
    using step Cs'(1) len tk Cs'(4) rec by (intro exI [of _ Cs']) simp
qed


lemma matsum_single: "nrows A = n \<Longrightarrow> ncols B = n \<Longrightarrow> matsum n [mm A B] = mm A B"
  unfolding matsum_def mm_def by (rule tabulate2_cong) simp_all

lemma lag_blocks_shapes:
  assumes "n * p \<le> ncols betas"
  shows "\<forall>a\<in>set (lag_blocks betas n p). nrows a = nrows betas \<and> ncols a = n"
proof
  fix a assume "a \<in> set (lag_blocks betas n p)"
  then obtain i where "i < p" "a = lag_blocks betas n p ! i"
    by (metis in_set_conv_nth length_lag_blocks)
  then show "nrows a = nrows betas \<and> ncols a = n"
    using shape_lag_block [OF _ assms] by simp
qed

lemma shape_eye [simp]: "nrows (eye n) = n" "ncols (eye n) = n"
  by (simp_all add: eye_def)

text \<open>
  C5. For \<open>betas\<close> with \<open>n\<close> rows that holds \<open>p \<ge> 1\<close> lag blocks of \<open>n\<close> columns, and a horizon
  \<open>H \<ge> 1\<close>, \<open>MA_representation\<close> returns a list of exactly \<open>H\<close> matrices with \<open>C[0]\<close> the
  identity and, for \<open>k \<ge> 1\<close>, \<open>C[k]\<close> the sum over the lags \<open>m = 1, ..., min k p\<close> of
  \<open>A[m] C[k - m]\<close> (the list \<open>lag_blocks\<close> counts the lags from zero: \<open>j = m - 1\<close>). With one
  lag, \<open>C[k]\<close> is the \<open>k\<close>-th power of the coefficient matrix.
\<close>

theorem MA_representation_recurrence:
  assumes "nrows betas = n" "n * p \<le> ncols betas" "1 \<le> p" "1 \<le> H"
  shows "\<exists>Cs. MA_representation betas p H = Some (map Matrix Cs) \<and> length Cs = H
     \<and> Cs ! 0 = eye n
     \<and> (\<forall>k. 1 \<le> k \<and> k < H \<longrightarrow>
           Cs ! k = matsum n (map (\<lambda>j. mm (lag_blocks betas n p ! j) (Cs ! (k - 1 - j)))
                               [0..<min k p]))
     \<and> (p = 1 \<longrightarrow> (\<forall>k<H. Cs ! k = mat_pow (lag_blocks betas n p ! 0) k))"
proof -
  let ?A = "lag_blocks betas n p"
  have A: "\<forall>a\<in>set ?A. nrows a = n \<and> ncols a = n" "1 \<le> length ?A"
    using lag_blocks_shapes [OF assms(2)] assms(1,3) by simp_all
  obtain Cs where Cs:
    "MA_loop ?A [1..<H] (map Matrix [eye n]) = Some (map Matrix Cs)"
    "length Cs = max 1 H" "take 1 Cs = [eye n]"
    "\<forall>C\<in>set Cs. nrows C = n \<and> ncols C = n"
    "\<forall>k. 1 \<le> k \<and> k < H \<longrightarrow>
       Cs ! k = matsum n (map (\<lambda>j. mm (?A ! j) (Cs ! (k - 1 - j))) [0..<min k (length ?A)])"
    using MA_loop_invariant [OF A, of "[eye n]" 1 H] by auto
  have len: "length Cs = H" using Cs(2) assms(4) by (simp add: max_def)
  have C0: "Cs ! 0 = eye n"
    using Cs(3) len assms(4) by (cases Cs) simp_all
  have rec: "\<forall>k. 1 \<le> k \<and> k < H \<longrightarrow>
       Cs ! k = matsum n (map (\<lambda>j. mm (?A ! j) (Cs ! (k - 1 - j))) [0..<min k p])"
    using Cs(5) by simp
  have pow: "p = 1 \<longrightarrow> (\<forall>k<H. Cs ! k = mat_pow (?A ! 0) k)"
  proof (intro impI allI)
    fix k assume p1: "p = 1" and "k < H"
    have A0: "nrows (?A ! 0) = n" "ncols (?A ! 0) = n"
      using shape_lag_block [of 0 p n betas] assms(1,2,3) by simp_all
    from \<open>k < H\<close> show "Cs ! k = mat_pow (?A ! 0) k"
    proof (induction k)
      case 0
      then show ?case using C0 A0 by simp
    next
      case (Suc k)
      then have IH: "Cs ! k = mat_pow (?A ! 0) k" by simp
      have "Cs ! k \<in> set Cs" using Suc.prems len by simp
      then have sh: "ncols (Cs ! k) = n" using Cs(4) by blast
      have "Cs ! Suc k = matsum n [mm (?A ! 0) (Cs ! k)]"
        using rec Suc.prems p1 by simp
      also have "\<dots> = mm (?A ! 0) (Cs ! k)" using A0 sh by (simp add: matsum_single)
      finally show ?case using IH by simp
    qed
  qed
  have "MA_representation betas p H = Some (map Matrix Cs)"
    using Cs(1) assms(1) by (simp add: MA_representation_def)
  then show ?thesis using len C0 rec pow by blast
qed


theorem MA_representation_recurrence_witness:
  "\<exists>Cs. MA_representation (of_rows 2 [[1, 2], [3, 4]]) 1 3 = Some (map Matrix Cs)
      \<and> length Cs = 3 \<and> Cs ! 0 = eye 2 \<and> to_rows (Cs ! 2) = [[7, 10], [15, 22]]"
proof -
  let ?B = "of_rows 2 [[1, 2], [3, 4 :: real]]"
  have sh: "nrows ?B = 2" "2 * 1 \<le> ncols ?B" "(1::nat) \<le> 1" "(1::nat) \<le> 3"
    by (simp_all add: of_rows_def)
  obtain Cs where Cs: "MA_representation ?B 1 3 = Some (map Matrix Cs)" "length Cs = 3"
      "Cs ! 0 = eye 2" "\<forall>k<3. Cs ! k = mat_pow (lag_blocks ?B 2 1 ! 0) k"
    using MA_representation_recurrence [OF sh] by auto
  have "Cs ! 2 = mat_pow (lag_blocks ?B 2 1 ! 0) 2" using Cs(4) by simp
  moreover have "to_rows (mat_pow (lag_blocks ?B 2 1 ! 0) 2) = [[7, 10], [15, 22]]"
    by (simp add: lag_blocks_nth of_rows_def to_rows_def numeral_2_eq_2 mm_def eye_def
        upt_conv_Cons lessThan_Suc)
  ultimately show ?thesis using Cs(1,2,3) by auto
qed

section \<open>Impulse responses: theorems\<close>

lemma those_Some_nth:
  "those xs = Some ys \<Longrightarrow> length ys = length xs \<and> (\<forall>i<length xs. xs ! i = Some (ys ! i))"
proof (induction xs arbitrary: ys)
  case Nil
  then show ?case by simp
next
  case (Cons x xs)
  then obtain y ys' where y: "x = Some y" "those xs = Some ys'" "ys = y # ys'"
    by (auto split: option.splits)
  then show ?case using Cons.IH [of ys'] by (auto simp: nth_Cons split: nat.splits)
qed

lemma py_index_Some: "py_index n i = Some k \<Longrightarrow> k < n"
  by (auto simp: py_index_def split: if_splits)

lemma py_index_nat: "py_index n (int t) = Some k \<Longrightarrow> k = t"
  by (auto simp: py_index_def split: if_splits)

lemma normalize_shock_first:
  assumes "normalize_shock koef v = Some v'"
  shows "(\<forall>xs. v' = Vec xs \<longrightarrow> xs \<noteq> [] \<and> xs ! 0 = koef)
       \<and> (\<forall>M. v' = Mat2 M \<longrightarrow> 0 < nrows M \<and> (0 < ncols M \<longrightarrow> entry M 0 0 = koef))"
proof (cases v)
  case (Vec xs)
  then show ?thesis using assms
    by (auto simp: normalize_shock_def split: list.splits if_splits)
next
  case (Mat2 M)
  then show ?thesis using assms
    by (auto simp: normalize_shock_def list_ex_iff split: if_splits)
qed

lemma assign_row_shape:
  "assign_row irf t v = Some irf' \<Longrightarrow> nrows irf' = nrows irf \<and> ncols irf' = ncols irf"
  by (auto simp: assign_row_def bind_eq_Some_conv)

lemma assign_row_other:
  assumes "assign_row irf t v = Some irf'" "py_index (nrows irf) t = Some k" "i \<noteq> k"
    "i < nrows irf" "j < ncols irf"
  shows "entry irf' i j = entry irf i j"
  using assms by (auto simp: assign_row_def bind_eq_Some_conv)

lemma irf_loop_row0:
  "irf_loop bl n ts irf = Some irf' \<Longrightarrow> \<forall>t\<in>set ts. 1 \<le> t \<Longrightarrow> 0 < nrows irf \<Longrightarrow> j < ncols irf
     \<Longrightarrow> nrows irf' = nrows irf \<and> ncols irf' = ncols irf \<and> entry irf' 0 j = entry irf 0 j"
proof (induction ts arbitrary: irf)
  case Nil
  then show ?case by simp
next
  case (Cons t ts)
  from Cons.prems(1) obtain v irf1 where
    a: "assign_row irf (int t) v = Some irf1" and l: "irf_loop bl n ts irf1 = Some irf'"
    by (auto simp: bind_eq_Some_conv Let_def)
  from a obtain k where k: "py_index (nrows irf) (int t) = Some k"
    by (auto simp: assign_row_def bind_eq_Some_conv)
  then have "k = t" by (rule py_index_nat)
  then have "0 \<noteq> k" using Cons.prems(2) by auto
  then have e: "entry irf1 0 j = entry irf 0 j"
    using assign_row_other [OF a k] Cons.prems(3,4) by simp
  have s: "nrows irf1 = nrows irf" "ncols irf1 = ncols irf" using assign_row_shape [OF a] by simp_all
  show ?case using Cons.IH [OF l] Cons.prems(2,3,4) e s by simp
qed

lemma entry_cumsum0_row0: "0 < nrows A \<Longrightarrow> j < ncols A \<Longrightarrow> entry (cumsum0 A) 0 j = entry A 0 j"
  by (simp add: cumsum0_def)

lemma assign_row0_first:
  assumes "assign_row irf 0 v = Some irf'" "0 < ncols irf"
    "\<forall>xs. v = Vec xs \<longrightarrow> xs \<noteq> [] \<and> xs ! 0 = c"
    "\<forall>M. v = Mat2 M \<longrightarrow> 0 < nrows M \<and> (0 < ncols M \<longrightarrow> entry M 0 0 = c)"
  shows "0 < nrows irf \<and> entry irf' 0 0 = c"
proof -
  from assms(1) obtain k where k: "py_index (nrows irf) 0 = Some k"
    by (auto simp: assign_row_def bind_eq_Some_conv)
  then have k0: "k = 0" "0 < nrows irf" by (auto simp: py_index_def split: if_splits)
  show ?thesis
  proof (cases v)
    case (Vec xs)
    then show ?thesis using assms k k0
      by (auto simp: assign_row_def bind_eq_Some_conv split: if_splits)
  next
    case (Mat2 M)
    then show ?thesis using assms k k0
      by (auto simp: assign_row_def bind_eq_Some_conv split: if_splits)
  qed
qed

lemma irf_lineal_cholesky_first:
  assumes "irf_lineal_cholesky chol betas S periods True cumulative koef = Some irf"
  shows "entry irf 0 0 = koef"
proof -
  let ?n = "nrows betas"
  from assms obtain v0 v irf1 irf2 where
    n: "?n \<noteq> 0" and
    nz: "normalize_shock koef v0 = Some v" and
    a: "assign_row (zeros periods ?n) 0 v = Some irf1" and
    l: "irf_loop (lag_blocks betas ?n (ncols betas div ?n)) ?n [1..<periods] irf1 = Some irf2" and
    r: "irf = (if cumulative then cumsum0 irf2 else irf2)"
    by (auto simp: irf_lineal_cholesky_def bind_eq_Some_conv Let_def split: if_splits)
  have z: "ncols (zeros periods ?n) = ?n" "nrows (zeros periods ?n) = periods"
    by (simp_all add: zeros_def)
  have f: "0 < periods \<and> entry irf1 0 0 = koef"
    using assign_row0_first [OF a _ normalize_shock_first [OF nz, THEN conjunct1]
          normalize_shock_first [OF nz, THEN conjunct2]] n z by simp
  have s1: "nrows irf1 = periods" "ncols irf1 = ?n" using assign_row_shape [OF a] z by simp_all
  have "nrows irf2 = nrows irf1 \<and> ncols irf2 = ncols irf1 \<and> entry irf2 0 0 = entry irf1 0 0"
    using irf_loop_row0 [OF l, of 0] f s1 n by simp
  then show ?thesis using r f s1 n by (simp add: entry_cumsum0_row0)
qed


lemma MA_loop_prefix: "MA_loop A ms C = Some C' \<Longrightarrow> \<exists>D. C' = C @ D"
proof (induction ms arbitrary: C)
  case Nil
  then show ?case by simp
next
  case (Cons m ms)
  then obtain Cm where "MA_loop A ms (C @ [Cm]) = Some C'"
    by (auto simp: bind_eq_Some_conv)
  then show ?case using Cons.IH [of "C @ [Cm]"] by auto
qed

lemma MA_representation_head:
  "MA_representation betas p H = Some C \<Longrightarrow> C \<noteq> [] \<and> C ! 0 = Matrix (eye (nrows betas))"
  using MA_loop_prefix [of "lag_blocks betas (nrows betas) p" "[1..<H]" "[Matrix (eye (nrows betas))]" C]
  by (auto simp: MA_representation_def)

lemma entry_mm_eye:
  assumes "i < n" "j < ncols B"
  shows "entry (mm (eye n) B) i j = entry B i j"
proof -
  have "(\<Sum>k<n. entry (eye n) i k * entry B k j) = (\<Sum>k<n. if k = i then entry B k j else 0)"
    using assms(1) by (intro sum.cong) (auto simp: eye_def)
  also have "\<dots> = entry B i j" using assms(1) by simp
  finally show ?thesis using assms by (simp add: mm_def)
qed

lemma irf_gamma_normalized:
  assumes "irf_gamma betas Gamma_hat periods koef wrt = Some R"
    "py_index (nrows Gamma_hat) wrt = Some w" "j < ncols Gamma_hat"
  shows "R \<noteq> [] \<and> entry (R ! 0) w j = koef"
proof -
  let ?n = "nrows betas"
  from assms(1,2) obtain C ms Cs prods where
    C: "MA_representation betas (ncols betas div ?n) periods = Some C" and
    ms: "those (map (\<lambda>c. case c of Scalar x \<Rightarrow> None | Matrix m \<Rightarrow> Some m) C) = Some Cs" and
    prods: "those (map (\<lambda>c. matmul c Gamma_hat) Cs) = Some prods" and
    nz: "\<not> list_ex (\<lambda>j. entry Gamma_hat w j = 0) [0..<ncols Gamma_hat]" and
    R: "R = map (\<lambda>P. tabulate2 (nrows P) (ncols P)
                   (\<lambda>i j. entry P i j / entry Gamma_hat w j * koef)) prods"
    by (auto simp: irf_gamma_def stack_matrices_def bind_eq_Some_conv split: if_splits)
  have C0: "C \<noteq> []" "C ! 0 = Matrix (eye ?n)" using MA_representation_head [OF C] by simp_all
  have len: "0 < length C" using C0(1) by simp
  have Cs: "length Cs = length C" "Cs ! 0 = eye ?n"
    using those_Some_nth [OF ms] C0 len by auto
  have p: "length prods = length Cs" "matmul (Cs ! 0) Gamma_hat = Some (prods ! 0)"
    using those_Some_nth [OF prods] Cs(1) len by auto
  then have n: "nrows Gamma_hat = ?n" and p0: "prods ! 0 = mm (eye ?n) Gamma_hat"
    using Cs(2) by (auto simp: matmul_def split: if_splits)
  have w: "w < ?n" using py_index_Some [OF assms(2)] n by simp
  have g: "entry Gamma_hat w j \<noteq> 0" using nz assms(3) by (auto simp: list_ex_iff)
  have "R ! 0 = tabulate2 ?n (ncols Gamma_hat)
       (\<lambda>i j. entry (mm (eye ?n) Gamma_hat) i j / entry Gamma_hat w j * koef)"
    using R p(1) Cs(1) len p0 by simp
  then have "entry (R ! 0) w j = koef"
    using w assms(3) g by (simp add: entry_mm_eye)
  moreover have "R \<noteq> []" using R p(1) Cs(1) len by auto
  ultimately show ?thesis by simp
qed


lemma nrows_foldl_hcat [simp]: "nrows (foldl hcat m ms) = nrows m"
  by (induction ms arbitrary: m) (simp_all add: hcat_def)

lemma concatenate1_Some:
  "ms \<noteq> [] \<Longrightarrow> \<forall>m\<in>set ms. nrows m = n \<Longrightarrow> \<exists>cat. concatenate1 ms = Some cat \<and> nrows cat = n"
  by (cases ms) (auto simp: concatenate1_def list_all_iff)

lemma length_row_sums [simp]: "length (row_sums A) = nrows A"
  by (simp add: row_sums_def)

lemma nrows_slice2_last:
  "1 \<le> b \<Longrightarrow> b \<le> nrows A \<Longrightarrow> nrows (slice2 A (Some (- int b), None) (None, None)) = b"
  by (auto simp: slice2_def py_lo_def py_hi_def py_bound_def Let_def)

lemma irf_step_Some:
  assumes bl: "\<forall>b\<in>set bl. nrows b = n \<and> ncols b = n" "1 \<le> length bl"
    and irf: "nrows irf = periods" "ncols irf = n" and t: "1 \<le> t" "t < periods"
  shows "\<exists>irf'. irf_loop bl n (t # ts) irf = irf_loop bl n ts irf'
            \<and> nrows irf' = periods \<and> ncols irf' = n"
proof -
  let ?B = "take t bl"
  let ?i1 = "slice2 irf (Some 0, Some (int t)) (None, None)"
  let ?i2 = "slice2 ?i1 (Some (- int (length ?B)), None) (None, None)"
  let ?l = "map (\<lambda>j. tabulate2 n 1 (\<lambda>i k. entry ?i2 j i)) [0..<nrows ?i2]"
  have lb: "1 \<le> length ?B" "length ?B \<le> t" using bl(2) t(1) by simp_all
  have n1: "nrows ?i1 = t" using irf(1) t(2)
    by (simp add: slice2_def py_lo_def py_hi_def py_bound_def Let_def)
  have n2: "nrows ?i2 = length ?B" using n1 lb
    by (intro nrows_slice2_last) simp_all
  have "\<And>x. x \<in> set (zip ?B (rev ?l)) \<Longrightarrow>
      (\<lambda>(b, v). matmul b v) x = Some ((\<lambda>(b, v). mm b v) x)"
  proof -
    fix x assume mem: "x \<in> set (zip ?B (rev ?l))"
    obtain b v where x: "x = (b, v)" by (cases x)
    have "b \<in> set ?B" using mem unfolding x by (rule set_zip_leftD)
    then have b: "b \<in> set bl" by (rule in_set_takeD)
    have "v \<in> set (rev ?l)" using mem unfolding x by (rule set_zip_rightD)
    then have "nrows v = n" by auto
    then show "(\<lambda>(b, v). matmul b v) x = Some ((\<lambda>(b, v). mm b v) x)"
      using b bl(1) by (simp add: x matmul_def)
  qed
  then have ag: "those (map (\<lambda>(b, v). matmul b v) (zip ?B (rev ?l)))
      = Some (map (\<lambda>(b, v). mm b v) (zip ?B (rev ?l)))"
    by (rule those_map_Some)
  let ?ag = "map (\<lambda>(b, v). mm b v) (zip ?B (rev ?l))"
  have lag: "length ?ag = length ?B" using n2 by (simp del: length_take)
  have ne: "?ag \<noteq> []"
  proof
    assume "?ag = []"
    then have "length ?ag = 0" by (simp only: list.size)
    with lag lb(1) show False by linarith
  qed
  have sh: "\<forall>m\<in>set ?ag. nrows m = n"
  proof
    fix m assume "m \<in> set ?ag"
    then obtain x where mem: "x \<in> set (zip ?B (rev ?l))" and m: "m = (\<lambda>(b, v). mm b v) x"
      by (auto simp del: length_take)
    obtain b v where x: "x = (b, v)" by (cases x)
    have "b \<in> set ?B" using mem unfolding x by (rule set_zip_leftD)
    then have "b \<in> set bl" by (rule in_set_takeD)
    then show "nrows m = n" using bl(1) m x by simp
  qed
  obtain cat where cat: "concatenate1 ?ag = Some cat" "nrows cat = n"
    using concatenate1_Some [OF ne sh] by blast
  have pi: "py_index (nrows irf) (int t) = Some t" using irf(1) t(2) by (simp add: py_index_def)
  obtain irf' where a: "assign_row irf (int t) (Vec (row_sums cat)) = Some irf'"
    using pi cat(2) irf(2) by (simp add: assign_row_def)
  have "nrows irf' = periods \<and> ncols irf' = n" using assign_row_shape [OF a] irf by simp
  moreover have "irf_loop bl n (t # ts) irf = irf_loop bl n ts irf'"
    using ag cat(1) a by (simp add: Let_def del: length_take)
  ultimately show ?thesis by blast
qed

lemma irf_loop_Some:
  assumes bl: "\<forall>b\<in>set bl. nrows b = n \<and> ncols b = n" "1 \<le> length bl"
  shows "nrows irf = periods \<Longrightarrow> ncols irf = n \<Longrightarrow> \<forall>t\<in>set ts. 1 \<le> t \<and> t < periods
     \<Longrightarrow> \<exists>irf'. irf_loop bl n ts irf = Some irf'"
proof (induction ts arbitrary: irf)
  case Nil
  then show ?case by simp
next
  case (Cons t ts)
  then have t: "1 \<le> t" "t < periods" by simp_all
  obtain irf1 where s: "irf_loop bl n (t # ts) irf = irf_loop bl n ts irf1"
      "nrows irf1 = periods" "ncols irf1 = n"
    using irf_step_Some [OF bl Cons.prems(1,2) t] by blast
  show ?case using Cons.IH [OF s(2,3)] Cons.prems(3) s(1) by simp
qed


lemma nrows_zeros [simp]: "nrows (zeros r c) = r" and ncols_zeros [simp]: "ncols (zeros r c) = c"
  by (simp_all add: zeros_def)

lemma lags_fit: "n * (c div n) \<le> (c::nat)"
  by simp

lemma irf_lineal_cholesky_returns:
  assumes betas: "nrows betas \<le> ncols betas" "1 \<le> periods"
    and S: "2 \<le> nrows betas" "nrows S = nrows betas" "ncols S = nrows betas"
    and L: "chol S = Some L" "nrows L = nrows betas" "ncols L = nrows betas" "entry L 0 0 \<noteq> 0"
  shows "\<exists>irf. irf_lineal_cholesky chol betas S periods normalize' cumulative koef = Some irf"
proof -
  let ?n = "nrows betas"
  let ?Lags = "ncols betas div ?n"
  let ?bl = "lag_blocks betas ?n ?Lags"
  let ?xs = "map (\<lambda>i. entry L i 0) [0..<nrows L]"
  have n0: "0 < ?n" using S(1) by simp
  have lg: "1 \<le> ?Lags" using betas(1) n0 by (simp add: Suc_le_eq div_greater_zero_iff)
  have bl1: "\<forall>b\<in>set ?bl. nrows b = ?n \<and> ncols b = ?n"
    by (rule lag_blocks_shapes) (rule lags_fit)
  have bl2: "1 \<le> length ?bl" using lg by (simp only: length_lag_blocks)
  note bl = bl1 bl2
  have ch: "np_cholesky chol S = Some L" using S L by (simp add: np_cholesky_def)
  have xs: "?xs = entry L 0 0 # map (\<lambda>i. entry L i 0) [1..<?n]"
    using n0 L(2) by (simp add: upt_conv_Cons)
  have lxs: "length ?xs = ?n" using L(2) by simp
  have sh: "(if 2 \<le> ncols S
             then do { L \<leftarrow> np_cholesky chol S; Some (Vec (map (\<lambda>i. entry L i 0) [0..<nrows L])) }
             else Some (Mat2 S)) = Some (Vec ?xs)"
    using S ch by simp
  obtain v where v: "(if normalize' then normalize_shock koef (Vec ?xs) else Some (Vec ?xs)) = Some (Vec v)"
      "length v = ?n"
  proof (cases normalize')
    case True
    have "normalize_shock koef (Vec ?xs) = Some (Vec (map (\<lambda>y. koef * (y / entry L 0 0)) ?xs))"
      unfolding normalize_shock_def arr.case by (subst xs) (simp add: L(4) xs [symmetric])
    then show ?thesis using that [of "map (\<lambda>y. koef * (y / entry L 0 0)) ?xs"] True lxs by simp
  next
    case False
    then show ?thesis using that [of ?xs] lxs by simp
  qed
  obtain irf1 where a: "assign_row (zeros periods ?n) 0 (Vec v) = Some irf1"
    using v(2) betas(2) by (simp add: assign_row_def py_index_def)
  have s1: "nrows irf1 = periods" "ncols irf1 = ?n" using assign_row_shape [OF a] by simp_all
  have "\<forall>t\<in>set [1..<periods]. 1 \<le> t \<and> t < periods" by simp
  then obtain irf2 where l: "irf_loop ?bl ?n [1..<periods] irf1 = Some irf2"
    using irf_loop_Some [OF bl s1] by blast
  have Lg: "(if ?n = 0 then None else Some ?Lags) = Some ?Lags" using n0 by simp
  show ?thesis
    unfolding irf_lineal_cholesky_def Let_def
    by (simp only: Lg sh v(1) a l bind.bind_lunit) simp
qed


lemma irf_gamma_returns:
  assumes betas: "1 \<le> nrows betas" "nrows betas \<le> ncols betas"
    and G: "nrows Gamma_hat = nrows betas" "py_index (nrows Gamma_hat) wrt = Some w"
       "\<forall>j<ncols Gamma_hat. entry Gamma_hat w j \<noteq> 0"
  shows "\<exists>R. irf_gamma betas Gamma_hat periods koef wrt = Some R"
proof -
  let ?n = "nrows betas"
  let ?Lags = "ncols betas div ?n"
  let ?A = "lag_blocks betas ?n ?Lags"
  have n0: "0 < ?n" using betas(1) by simp
  have lg: "1 \<le> ?Lags" using betas(2) n0 by (simp add: Suc_le_eq div_greater_zero_iff)
  have A1: "\<forall>a\<in>set ?A. nrows a = ?n \<and> ncols a = ?n"
    by (rule lag_blocks_shapes) (rule lags_fit)
  have A2: "1 \<le> length ?A" using lg by (simp only: length_lag_blocks)
  obtain Cs where Cs: "MA_loop ?A [1..<periods] (map Matrix [eye ?n]) = Some (map Matrix Cs)"
      "\<forall>C\<in>set Cs. nrows C = ?n \<and> ncols C = ?n" "length Cs = max 1 periods"
    using MA_loop_invariant [OF A1 A2, of "[eye ?n]" 1 periods] by auto
  have C: "MA_representation betas ?Lags periods = Some (map Matrix Cs)"
    using Cs(1) by (simp add: MA_representation_def)
  have "those (map (\<lambda>c. case c of Scalar x \<Rightarrow> None | Matrix m \<Rightarrow> Some m) (map Matrix Cs))
      = Some (map (\<lambda>c. c) Cs)"
    unfolding map_map by (rule those_map_Some) simp
  moreover have "Cs \<noteq> []" using Cs(3) by auto
  then have "hd Cs \<in> set Cs" by simp
  then have "list_all (\<lambda>m. nrows m = nrows (hd Cs) \<and> ncols m = ncols (hd Cs)) Cs"
    using Cs(2) by (simp add: list_all_iff)
  ultimately have st: "stack_matrices (map Matrix Cs) = Some Cs"
    by (simp add: stack_matrices_def)
  have pr: "those (map (\<lambda>c. matmul c Gamma_hat) Cs) = Some (map (\<lambda>c. mm c Gamma_hat) Cs)"
    by (rule those_map_Some) (use Cs(2) G(1) in \<open>simp add: matmul_def\<close>)
  have nz: "\<not> list_ex (\<lambda>j. entry Gamma_hat w j = 0) [0..<ncols Gamma_hat]"
    using G(3) by (simp add: list_ex_iff)
  have Lg: "(if ?n = 0 then None else Some ?Lags) = Some ?Lags" using n0 by simp
  show ?thesis
    unfolding irf_gamma_def
    by (simp only: Lg C st pr G(2) nz bind.bind_lunit if_False) simp
qed


text \<open>
  On the runs that return, the normalised impact at horizon 0 is the shock coefficient
  \<open>koef\<close>. Whenever \<open>irf_lineal_cholesky\<close> with \<open>normalize = True\<close> returns (which needs a
  first shock entry that is not zero), the first entry of row 0 of its result is \<open>koef\<close>: for
  every covariance \<open>S\<close>, hence also for every rescaling \<open>c S\<close> of it, and for either value of
  the cumulative flag. Whenever \<open>irf_gamma\<close> returns (which needs the entries of the row
  \<open>Gamma_hat[wrt]\<close> not to be zero), the entry of the normalisation variable \<open>wrt\<close> of its
  horizon-0 response is \<open>koef\<close>. \<open>irf_gamma\<close> returns on well-shaped inputs
  (\<open>irf_gamma_returns\<close>), \<open>irf_lineal_cholesky\<close> on a square \<open>S\<close> with a Cholesky factor
  (\<open>irf_lineal_cholesky_returns\<close>).
\<close>

theorem irf_horizon0_is_koef:
  "(irf_lineal_cholesky chol betas S periods True cumulative koef = Some irf
      \<longrightarrow> entry irf 0 0 = koef)
   \<and> (irf_lineal_cholesky chol betas (smul c S) periods True cumulative' koef = Some irf'
      \<longrightarrow> entry irf' 0 0 = koef)
   \<and> (irf_gamma betas Gamma_hat periods koef wrt = Some R
        \<and> py_index (nrows Gamma_hat) wrt = Some w \<and> j < ncols Gamma_hat
      \<longrightarrow> R \<noteq> [] \<and> entry (R ! 0) w j = koef)"
  using irf_lineal_cholesky_first irf_gamma_normalized by blast

theorem irf_horizon0_is_koef_witness:
  "\<exists>irf irf' R.
     irf_lineal_cholesky cholesky_2x2 (of_rows 2 [[1 / 2, 0], [0, 3 / 10]])
         (of_rows 2 [[4, 2], [2, 5]]) 3 True False (1 / 10) = Some irf
     \<and> entry irf 0 0 = 1 / 10
     \<and> irf_lineal_cholesky cholesky_2x2 (of_rows 2 [[1 / 2, 0], [0, 3 / 10]])
         (smul 4 (of_rows 2 [[4, 2], [2, 5]])) 3 True True (1 / 10) = Some irf'
     \<and> entry irf' 0 0 = 1 / 10
     \<and> irf_gamma (of_rows 2 [[1 / 2, 0], [0, 3 / 10]]) (of_rows 1 [[2], [4]]) 3 (1 / 10) 0 = Some R
     \<and> entry (R ! 0) 0 0 = 1 / 10"
proof -
  let ?B = "of_rows 2 [[1 / 2, 0], [0, 3 / 10 :: real]]"
  let ?S = "of_rows 2 [[4, 2], [2, 5 :: real]]"
  let ?G = "of_rows 1 [[2], [4 :: real]]"
  have B: "nrows ?B = 2" "ncols ?B = 2" by (simp_all add: of_rows_def)
  obtain L where L: "cholesky_2x2 ?S = Some L" "nrows L = 2" "ncols L = 2" "entry L 0 0 \<noteq> 0"
    by (simp add: cholesky_2x2_def of_rows_def)
  obtain L' where L': "cholesky_2x2 (smul 4 ?S) = Some L'" "nrows L' = 2" "ncols L' = 2"
      "entry L' 0 0 \<noteq> 0"
    by (simp add: cholesky_2x2_def of_rows_def smul_def)
  obtain irf where irf:
    "irf_lineal_cholesky cholesky_2x2 ?B ?S 3 True False (1 / 10) = Some irf"
    using irf_lineal_cholesky_returns [of ?B 3 ?S cholesky_2x2 L True False "1 / 10"] B L
    by (auto simp: of_rows_def)
  obtain irf' where irf':
    "irf_lineal_cholesky cholesky_2x2 ?B (smul 4 ?S) 3 True True (1 / 10) = Some irf'"
    using irf_lineal_cholesky_returns [of ?B 3 "smul 4 ?S" cholesky_2x2 L' True True "1 / 10"] B L'
    by (auto simp: of_rows_def)
  have w: "py_index (nrows ?G) 0 = Some 0" by (simp add: py_index_def of_rows_def)
  obtain R where R: "irf_gamma ?B ?G 3 (1 / 10) 0 = Some R"
    using irf_gamma_returns [of ?B ?G 0 0 3 "1 / 10"] B w by (auto simp: of_rows_def)
  have j: "0 < ncols ?G" by (simp add: of_rows_def)
  show ?thesis
    using irf_horizon0_is_koef [of cholesky_2x2 ?B ?S 3 False "1 / 10" irf 4 True irf' ?G 0 R 0 0]
      irf irf' R w j by blast
qed

text \<open>The shock given as a column: \<open>S\<close> of shape \<open>n\<close> by 1 (the docstring: ``if S has shape
  nx1 it will assume that S = Gamma_hat''). Then \<^verbatim>\<open>list(S)\<close> is a list of \<open>n\<close> arrays of one
  entry each, and \<^verbatim>\<open>irf[0, :] = list(irf_0)\<close> stores a value of shape \<open>(n, 1)\<close> in a row of
  \<open>n\<close> entries: with \<open>n \<ge> 2\<close> that raises ValueError, with or without the normalisation.\<close>

lemma irf_lineal_cholesky_column_shock:
  assumes "ncols S = 1" "2 \<le> nrows S"
  shows "irf_lineal_cholesky chol betas S periods normalize' cumulative koef = None"
proof -
  have a: "\<And>irf M. nrows M = nrows S \<Longrightarrow> assign_row irf 0 (Mat2 M) = None"
    using assms(2) by (simp add: assign_row_def split: Option.bind_split)
  have n: "\<And>v. normalize_shock koef (Mat2 S) = Some v \<Longrightarrow> \<exists>M. v = Mat2 M \<and> nrows M = nrows S"
    by (auto simp: normalize_shock_def split: if_splits)
  show ?thesis
    unfolding irf_lineal_cholesky_def Let_def
    using assms(1) a n by (auto split: Option.bind_split if_splits)
qed

text \<open>
  C8 (the source departs from the claim). For the two-variable coefficients
  \<open>[[0.5, 0], [0, 0.3]]\<close> and the shock column \<open>S = [[2], [4]]\<close>, whose first entry \<open>2\<close> is not
  zero, \<open>irf_lineal_cholesky\<close> with \<open>normalize = True\<close> has no result, for either value of
  the cumulative flag: the call raises where the claim has the first entry of row 0 equal to
  \<open>koef\<close>. (On a square \<open>S\<close>, and for \<open>irf_gamma\<close>, the entry is \<open>koef\<close>: the theorem
  \<open>irf_horizon0_is_koef\<close> above.)
\<close>

theorem irf_lineal_cholesky_column_shock_raises:
  "irf_lineal_cholesky cholesky_2x2 (of_rows 2 [[1 / 2, 0], [0, 3 / 10]])
       (of_rows 1 [[2], [4]]) 3 True True (1 / 10) = None
   \<and> irf_lineal_cholesky cholesky_2x2 (of_rows 2 [[1 / 2, 0], [0, 3 / 10]])
       (of_rows 1 [[2], [4]]) 3 True False (1 / 10) = None
   \<and> entry (of_rows 1 [[2], [4 :: real]]) 0 0 = 2"
proof -
  have "ncols (of_rows 1 [[2], [4 :: real]]) = 1" "2 \<le> nrows (of_rows 1 [[2], [4 :: real]])"
    by (simp_all add: of_rows_def)
  then show ?thesis by (simp add: irf_lineal_cholesky_column_shock) (simp add: of_rows_def)
qed

section \<open>Confidence intervals by the quadratic bound: theorems\<close>

lemma msw_cell_of_case:
  assumes "msw_cell_of Gamma_hat W1 W12 W2 G T C cv s nvar j ih = Some cell"
  shows "(cell_casedummy cell, cell_lbound cell, cell_ubound cell)
           = msw_case (cell_ahat cell) (cell_bhat cell) (cell_Deltahat cell)
       \<and> cell_Deltahat cell = (cell_bhat cell)\<^sup>2 - 4 * cell_ahat cell * cell_chat cell"
  using assms unfolding msw_cell_of_def Let_def
  by (auto simp: bind_eq_Some_conv)

lemma those_product_nth:
  assumes "those (map f (List.product xs ys)) = Some cs" "i < length xs" "k < length ys"
  shows "f (xs ! i, ys ! k) = Some (cs ! (i * length ys + k))"
proof -
  have lt: "i * length ys + k < length xs * length ys"
  proof -
    have "i * length ys + k < Suc i * length ys" using assms(3) by simp
    also have "\<dots> \<le> length xs * length ys" using assms(2) by (intro mult_le_mono1) simp
    finally show ?thesis .
  qed
  then have "map f (List.product xs ys) ! (i * length ys + k) = Some (cs ! (i * length ys + k))"
    using those_Some_nth [OF assms(1)] by simp
  moreover have "length ys \<noteq> 0" using assms(3) by auto
  then have "(i * length ys + k) div length ys = i" "(i * length ys + k) mod length ys = k"
    using assms(3) by simp_all
  then have "List.product xs ys ! (i * length ys + k) = (xs ! i, ys ! k)"
    using lt by (simp add: product_nth)
  ultimately show ?thesis using lt by simp
qed

lemma set_item_entry:
  assumes "set_item A i j x = Some B"
  shows "\<exists>i' j'. py_index (nrows A) i = Some i' \<and> py_index (ncols A) j = Some j'
     \<and> nrows B = nrows A \<and> ncols B = ncols A
     \<and> (\<forall>r s. r < nrows A \<longrightarrow> s < ncols A \<longrightarrow>
           entry B r s = (if r = i' \<and> s = j' then x else entry A r s))"
  using assms by (auto simp: set_item_def bind_eq_Some_conv)

lemma py_index_zero: "py_index n 0 = Some j \<Longrightarrow> j = 0 \<and> 0 < n"
  by (auto simp: py_index_def split: if_splits)

lemma CI_dmethod_cell:
  assumes run: "CI_dmethod ppf Gamma_hat WHat G T C hori confidence scale nvar = Some rv"
    and j: "j < nrows Gamma_hat" and ih: "ih < hori"
  shows "\<exists>(cell :: msw_cell) i'. py_index (nrows Gamma_hat) (nvar - 1) = Some i'
     \<and> (cell_casedummy cell, cell_lbound cell, cell_ubound cell)
           = msw_case (cell_ahat cell) (cell_bhat cell) (cell_Deltahat cell)
     \<and> entry (ahat rv) j ih = cell_ahat cell
     \<and> cell_Deltahat cell = (cell_bhat cell)\<^sup>2 - 4 * cell_ahat cell * cell_chat cell
     \<and> entry (bhat rv) j ih = cell_bhat cell
     \<and> entry (chat rv) j ih = cell_chat cell
     \<and> entry (Deltahat rv) j ih = cell_Deltahat cell
     \<and> entry (casedummy rv) j ih = cell_casedummy cell
     \<and> entry (MSWlbound rv) j ih = (if j = i' \<and> ih = 0 then Fin scale else cell_lbound cell)
     \<and> entry (MSWubound rv) j ih = (if j = i' \<and> ih = 0 then Fin scale else cell_ubound cell)"
proof -
  let ?n = "nrows Gamma_hat"
  let ?W1 = "slice2 WHat (None, Some (- int ?n)) (None, Some (- int ?n))"
  let ?W2 = "slice2 WHat (Some (- int ?n), None) (Some (- int ?n), None)"
  let ?W12 = "tr (slice2 WHat (Some (int (nrows ?W1)), None) (None, Some (int (nrows ?W1))))"
  let ?cellf = "msw_cell_of Gamma_hat ?W1 ?W12 ?W2 G T C (critval_of ppf confidence) scale nvar"
  from run obtain cells lb ub where
    cells: "those (map (\<lambda>(j, ih). ?cellf j ih) (List.product [0..<?n] [0..<hori])) = Some cells" and
    lb: "set_item (tabulate2 ?n hori (\<lambda>j ih. cell_lbound (cells ! (j * hori + ih)))) (nvar - 1) 0 (Fin scale) = Some lb" and
    ub: "set_item (tabulate2 ?n hori (\<lambda>j ih. cell_ubound (cells ! (j * hori + ih)))) (nvar - 1) 0 (Fin scale) = Some ub" and
    rv: "rv = \<lparr>MSWlbound = lb, MSWubound = ub,
           ahat = tabulate2 ?n hori (\<lambda>j ih. cell_ahat (cells ! (j * hori + ih))),
           bhat = tabulate2 ?n hori (\<lambda>j ih. cell_bhat (cells ! (j * hori + ih))),
           chat = tabulate2 ?n hori (\<lambda>j ih. cell_chat (cells ! (j * hori + ih))),
           Deltahat = tabulate2 ?n hori (\<lambda>j ih. cell_Deltahat (cells ! (j * hori + ih))),
           casedummy = tabulate2 ?n hori (\<lambda>j ih. cell_casedummy (cells ! (j * hori + ih)))\<rparr>"
    unfolding CI_dmethod_def Let_def
    by (auto simp: bind_eq_Some_conv)
  have cellf: "\<And>j ih cell. ?cellf j ih = Some cell \<Longrightarrow>
       (cell_casedummy cell, cell_lbound cell, cell_ubound cell)
           = msw_case (cell_ahat cell) (cell_bhat cell) (cell_Deltahat cell)
       \<and> cell_Deltahat cell = (cell_bhat cell)\<^sup>2 - 4 * cell_ahat cell * cell_chat cell"
    by (rule msw_cell_of_case)
  let ?cell = "cells ! (j * hori + ih)"
  have "(\<lambda>(j, ih). ?cellf j ih) ([0..<?n] ! j, [0..<hori] ! ih) = Some (cells ! (j * length [0..<hori] + ih))"
    using j ih by (intro those_product_nth [OF cells]) simp_all
  then have c: "?cellf j ih = Some ?cell" using j ih by simp
  obtain i' j' where l: "py_index ?n (nvar - 1) = Some i'" "py_index hori 0 = Some j'"
     "\<forall>r s. r < ?n \<longrightarrow> s < hori \<longrightarrow>
           entry lb r s = (if r = i' \<and> s = j' then Fin scale else cell_lbound (cells ! (r * hori + s)))"
    using set_item_entry [OF lb] by auto
  have j0: "j' = 0" using py_index_zero [OF l(2)] by simp
  have u: "\<forall>r s. r < ?n \<longrightarrow> s < hori \<longrightarrow>
           entry ub r s = (if r = i' \<and> s = j' then Fin scale else cell_ubound (cells ! (r * hori + s)))"
    using set_item_entry [OF ub] l(1,2) by auto
  have main: "py_index ?n (nvar - 1) = Some i'
     \<and> (cell_casedummy ?cell, cell_lbound ?cell, cell_ubound ?cell)
           = msw_case (cell_ahat ?cell) (cell_bhat ?cell) (cell_Deltahat ?cell)
     \<and> entry (ahat rv) j ih = cell_ahat ?cell
     \<and> cell_Deltahat ?cell = (cell_bhat ?cell)\<^sup>2 - 4 * cell_ahat ?cell * cell_chat ?cell
     \<and> entry (bhat rv) j ih = cell_bhat ?cell
     \<and> entry (chat rv) j ih = cell_chat ?cell
     \<and> entry (Deltahat rv) j ih = cell_Deltahat ?cell
     \<and> entry (casedummy rv) j ih = cell_casedummy ?cell
     \<and> entry (MSWlbound rv) j ih = (if j = i' \<and> ih = 0 then Fin scale else cell_lbound ?cell)
     \<and> entry (MSWubound rv) j ih = (if j = i' \<and> ih = 0 then Fin scale else cell_ubound ?cell)"
    using cellf [OF c] l(1) l(3) u j ih j0 by (simp add: rv)
  show ?thesis by (rule exI [of _ ?cell], rule exI [of _ i'], rule main)
qed


lemmas array_eval =
  of_rows_def to_rows_def zeros_def eye_def tr_def mm_def matmul_def smul_def slice2_def
  py_lo_def py_hi_def py_bound_def py_index_def index2_def row_at_def column_at_def
  vecmat_def matvec_def dot_def vsmul_def as_row_def kron_def item1_def item2_def
  broadcast_to_def axis2_slice_def tabulate3_def list_item_def set_item_def

lemma CI_dmethod_flat_example:
  "\<exists>rv. CI_dmethod ppf_975 (of_rows 1 [[1]]) (zeros 2 2) (tabulate3 1 1 2 (\<lambda>i j k. 0)) 1
           [Matrix (eye 1), Matrix (of_rows 1 [[0]])] 2 (95 / 100) 1 1 = Some rv
     \<and> to_rows (casedummy rv) = [[4, 4]]
     \<and> to_rows (ahat rv) = [[1, 1]]
     \<and> to_rows (bhat rv) = [[- 2, 0]]
     \<and> to_rows (chat rv) = [[1, 0]]
     \<and> to_rows (Deltahat rv) = [[0, 0]]
     \<and> to_rows (MSWlbound rv) = [[Fin 1, NInf]]
     \<and> to_rows (MSWubound rv) = [[Fin 1, PInf]]"
  by (simp add: CI_dmethod_def msw_cell_of_def msw_case_def critval_of_def array_eval
      Let_def numeral_2_eq_2 upt_conv_Cons)


lemma CI_dmethod_index:
  assumes "CI_dmethod ppf Gamma_hat WHat G T C hori confidence scale nvar = Some rv"
  shows "\<exists>i. py_index (nrows Gamma_hat) (nvar - 1) = Some i \<and> i < nrows Gamma_hat \<and> 0 < hori"
proof -
  from assms obtain A lb where "set_item A (nvar - 1) 0 (Fin scale) = Some lb"
      "nrows A = nrows Gamma_hat" "ncols A = hori"
    unfolding CI_dmethod_def Let_def by (auto simp: bind_eq_Some_conv)
  then obtain i j where "py_index (nrows Gamma_hat) (nvar - 1) = Some i" "py_index hori 0 = Some j"
    using set_item_entry [of A "nvar - 1" 0 "Fin scale" lb] by auto
  then show ?thesis using py_index_Some [of "nrows Gamma_hat" "nvar - 1" i] py_index_zero [of hori j]
    by auto
qed

text \<open>
  C9. In the bound arrays that \<open>CI_dmethod\<close> returns, the cell at row \<open>nvar - 1\<close> (an index of
  Python) and horizon 0 holds the value \<open>scale\<close> as its lower and as its upper bound, for every
  input on which the function returns and whatever case the coefficients of that cell
  select.
\<close>

theorem CI_dmethod_normalized_cell:
  assumes "CI_dmethod ppf Gamma_hat WHat G T C hori confidence scale nvar = Some rv"
  shows "\<exists>i. py_index (nrows Gamma_hat) (nvar - 1) = Some i
     \<and> entry (MSWlbound rv) i 0 = Fin scale \<and> entry (MSWubound rv) i 0 = Fin scale"
proof -
  obtain i where i: "py_index (nrows Gamma_hat) (nvar - 1) = Some i" "i < nrows Gamma_hat" "0 < hori"
    using CI_dmethod_index [OF assms] by blast
  show ?thesis using CI_dmethod_cell [OF assms i(2,3)] i(1) by auto
qed

text \<open>
  C10. For every cell whose case classifier is 1 or 2, both bounds that \<open>CI_dmethod\<close> returns
  are real numbers and the lower bound is at most the upper bound; they coincide only in
  the normalised cell (row \<open>nvar - 1\<close>, horizon 0), where both are \<open>scale\<close>. In exact real
  arithmetic.
\<close>

theorem CI_dmethod_bounds_ordered:
  assumes "CI_dmethod ppf Gamma_hat WHat G T C hori confidence scale nvar = Some rv"
    and "j < nrows Gamma_hat" and "ih < hori"
    and "entry (casedummy rv) j ih = 1 \<or> entry (casedummy rv) j ih = 2"
  shows "\<exists>lo up. entry (MSWlbound rv) j ih = Fin lo \<and> entry (MSWubound rv) j ih = Fin up
     \<and> lo \<le> up
     \<and> (lo = up \<longrightarrow> py_index (nrows Gamma_hat) (nvar - 1) = Some j \<and> ih = 0)"
proof -
  obtain cell :: msw_cell and i where c:
    "py_index (nrows Gamma_hat) (nvar - 1) = Some i"
    "(cell_casedummy cell, cell_lbound cell, cell_ubound cell)
           = msw_case (cell_ahat cell) (cell_bhat cell) (cell_Deltahat cell)"
    "entry (casedummy rv) j ih = cell_casedummy cell"
    "entry (MSWlbound rv) j ih = (if j = i \<and> ih = 0 then Fin scale else cell_lbound cell)"
    "entry (MSWubound rv) j ih = (if j = i \<and> ih = 0 then Fin scale else cell_ubound cell)"
    using CI_dmethod_cell [OF assms(1,2,3)] by blast
  let ?a = "cell_ahat cell" and ?b = "cell_bhat cell" and ?D = "cell_Deltahat cell"
  show ?thesis
  proof (cases "j = i \<and> ih = 0")
    case True
    then show ?thesis using c by simp
  next
    case False
    from assms(4) c(3) have k: "cell_casedummy cell = 1 \<or> cell_casedummy cell = 2" by simp
    then have D: "0 < ?D" and a: "?a \<noteq> 0"
      using c(2) by (auto simp: msw_case_def split: if_splits)
    then have s: "0 < sqrt ?D" by simp
    show ?thesis
    proof (cases "0 < ?a")
      case True
      then have "cell_lbound cell = Fin ((- ?b - sqrt ?D) / (2 * ?a))"
          "cell_ubound cell = Fin ((- ?b + sqrt ?D) / (2 * ?a))"
        using c(2) D by (auto simp: msw_case_def)
      moreover have "(- ?b - sqrt ?D) / (2 * ?a) < (- ?b + sqrt ?D) / (2 * ?a)"
        using True s by (simp add: divide_strict_right_mono)
      ultimately show ?thesis using c(4,5) False by auto
    next
      case False
      then have neg: "?a < 0" using a by simp
      then have "cell_lbound cell = Fin ((- ?b + sqrt ?D) / (2 * ?a))"
          "cell_ubound cell = Fin ((- ?b - sqrt ?D) / (2 * ?a))"
        using c(2) D by (auto simp: msw_case_def)
      moreover have "(- ?b + sqrt ?D) / (2 * ?a) < (- ?b - sqrt ?D) / (2 * ?a)"
        using neg s by (simp add: divide_strict_right_mono_neg)
      ultimately show ?thesis using c(4,5) \<open>\<not> (j = i \<and> ih = 0)\<close> by auto
    qed
  qed
qed

text \<open>
  C1, as amended. For every cell \<open>(j, ih)\<close> of a result of \<open>CI_dmethod\<close>, the case classifier
  is exactly one of 1, 2, 3, 4 and is determined by the signs of \<open>a\<close> and of
  \<open>Delta = b\<^sup>2 - 4 a c\<close>: 1 when \<open>a > 0\<close> and \<open>Delta > 0\<close>, 2 when \<open>a < 0\<close> and \<open>Delta > 0\<close>, 3 when
  \<open>a > 0\<close> and \<open>Delta < 0\<close>, and 4 in every other case: \<open>a < 0\<close> with \<open>Delta < 0\<close>, and also
  \<open>a = 0\<close> or \<open>Delta = 0\<close> (the final \<^verbatim>\<open>else\<close>). In every cell other than the normalised
  cell (row \<open>nvar - 1\<close>, horizon 0), case 3 gives not-a-number for both bounds and case 4 gives
  minus and plus infinity; the bounds of the normalised cell are overwritten with \<open>scale\<close>.
\<close>

theorem CI_dmethod_case_classification:
  assumes "CI_dmethod ppf Gamma_hat WHat G T C hori confidence scale nvar = Some rv"
    and "j < nrows Gamma_hat" and "ih < hori"
  shows "(entry (casedummy rv) j ih = 1
            \<longleftrightarrow> entry (ahat rv) j ih > 0 \<and> entry (Deltahat rv) j ih > 0)
     \<and> (entry (casedummy rv) j ih = 2
            \<longleftrightarrow> entry (ahat rv) j ih < 0 \<and> entry (Deltahat rv) j ih > 0)
     \<and> (entry (casedummy rv) j ih = 3
            \<longleftrightarrow> entry (ahat rv) j ih > 0 \<and> entry (Deltahat rv) j ih < 0)
     \<and> (entry (casedummy rv) j ih = 4
            \<longleftrightarrow> entry (ahat rv) j ih = 0 \<or> entry (Deltahat rv) j ih = 0
                \<or> (entry (ahat rv) j ih < 0 \<and> entry (Deltahat rv) j ih < 0))
     \<and> entry (casedummy rv) j ih \<in> {1, 2, 3, 4}
     \<and> entry (Deltahat rv) j ih
          = (entry (bhat rv) j ih)\<^sup>2 - 4 * entry (ahat rv) j ih * entry (chat rv) j ih
     \<and> (\<not> (py_index (nrows Gamma_hat) (nvar - 1) = Some j \<and> ih = 0) \<longrightarrow>
          (entry (casedummy rv) j ih = 3 \<longrightarrow>
             entry (MSWlbound rv) j ih = NaN \<and> entry (MSWubound rv) j ih = NaN)
        \<and> (entry (casedummy rv) j ih = 4 \<longrightarrow>
             entry (MSWlbound rv) j ih = NInf \<and> entry (MSWubound rv) j ih = PInf))"
proof -
  obtain cell :: msw_cell and i where c:
    "py_index (nrows Gamma_hat) (nvar - 1) = Some i"
    "(cell_casedummy cell, cell_lbound cell, cell_ubound cell)
           = msw_case (cell_ahat cell) (cell_bhat cell) (cell_Deltahat cell)"
    "cell_Deltahat cell = (cell_bhat cell)\<^sup>2 - 4 * cell_ahat cell * cell_chat cell"
    "entry (ahat rv) j ih = cell_ahat cell" "entry (bhat rv) j ih = cell_bhat cell"
    "entry (chat rv) j ih = cell_chat cell" "entry (Deltahat rv) j ih = cell_Deltahat cell"
    "entry (casedummy rv) j ih = cell_casedummy cell"
    "entry (MSWlbound rv) j ih = (if j = i \<and> ih = 0 then Fin scale else cell_lbound cell)"
    "entry (MSWubound rv) j ih = (if j = i \<and> ih = 0 then Fin scale else cell_ubound cell)"
    using CI_dmethod_cell [OF assms(1,2,3)] by blast
  show ?thesis
    unfolding c(4,5,6,7,8,9,10) using c(1,2,3)
    by (auto simp: msw_case_def split: if_splits)
qed


lemma CI_dmethod_example:
  "\<exists>rv. CI_dmethod ppf_975 (of_rows 1 [[1]]) (of_rows 2 [[1, 0], [0, 0]])
           (tabulate3 1 1 3 (\<lambda>i j k. if k = 1 then 1 else 0)) 1
           [Matrix (eye 1), Matrix (of_rows 1 [[1 / 2]]), Matrix (of_rows 1 [[0]])]
           3 (95 / 100) 1 1 = Some rv
     \<and> entry (casedummy rv) 0 1 = 1 \<and> entry (casedummy rv) 0 2 = 4
     \<and> entry (ahat rv) 0 2 = 1"
  by (simp add: CI_dmethod_def msw_cell_of_def msw_case_def critval_of_def ppf_975_def array_eval
      Let_def eval_nat_numeral upt_conv_Cons)

text \<open>
  C1 as stated fails. With \<open>Gamma_hat = [[1]]\<close>, \<open>WHat = 0\<close>, \<open>G = 0\<close>, \<open>T = 1\<close>, \<open>C = [I, 0]\<close>,
  two horizons, \<open>scale = 1\<close> and \<open>nvar = 1\<close>: the cell at horizon 1 has \<open>a = 1 > 0\<close> and
  \<open>Delta = 0\<close>, so none of the four sign conditions of the claim holds, and the source
  classifies it as case 4; the normalised cell at horizon 0 is case 4 too, and its bounds
  are both \<open>1\<close>, not minus and plus infinity.
\<close>

theorem CI_dmethod_case4_counterexample:
  "map_option (to_rows \<circ> casedummy)
     (CI_dmethod ppf_975 (of_rows 1 [[1]]) (zeros 2 2) (tabulate3 1 1 2 (\<lambda>i j k. 0)) 1
        [Matrix (eye 1), Matrix (of_rows 1 [[0]])] 2 (95 / 100) 1 1) = Some [[4, 4]]
   \<and> map_option (to_rows \<circ> ahat)
     (CI_dmethod ppf_975 (of_rows 1 [[1]]) (zeros 2 2) (tabulate3 1 1 2 (\<lambda>i j k. 0)) 1
        [Matrix (eye 1), Matrix (of_rows 1 [[0]])] 2 (95 / 100) 1 1) = Some [[1, 1]]
   \<and> map_option (to_rows \<circ> Deltahat)
     (CI_dmethod ppf_975 (of_rows 1 [[1]]) (zeros 2 2) (tabulate3 1 1 2 (\<lambda>i j k. 0)) 1
        [Matrix (eye 1), Matrix (of_rows 1 [[0]])] 2 (95 / 100) 1 1) = Some [[0, 0]]
   \<and> map_option (to_rows \<circ> MSWlbound)
     (CI_dmethod ppf_975 (of_rows 1 [[1]]) (zeros 2 2) (tabulate3 1 1 2 (\<lambda>i j k. 0)) 1
        [Matrix (eye 1), Matrix (of_rows 1 [[0]])] 2 (95 / 100) 1 1) = Some [[Fin 1, NInf]]
   \<and> map_option (to_rows \<circ> MSWubound)
     (CI_dmethod ppf_975 (of_rows 1 [[1]]) (zeros 2 2) (tabulate3 1 1 2 (\<lambda>i j k. 0)) 1
        [Matrix (eye 1), Matrix (of_rows 1 [[0]])] 2 (95 / 100) 1 1) = Some [[Fin 1, PInf]]"
  using CI_dmethod_flat_example by auto

theorem CI_dmethod_case_classification_witness:
  "\<exists>rv. CI_dmethod ppf_975 (of_rows 1 [[1]]) (of_rows 2 [[1, 0], [0, 0]])
           (tabulate3 1 1 3 (\<lambda>i j k. if k = 1 then 1 else 0)) 1
           [Matrix (eye 1), Matrix (of_rows 1 [[1 / 2]]), Matrix (of_rows 1 [[0]])]
           3 (95 / 100) 1 1 = Some rv
     \<and> entry (casedummy rv) 0 2 = 4 \<and> entry (ahat rv) 0 2 = 1 \<and> entry (Deltahat rv) 0 2 = 0
     \<and> entry (MSWlbound rv) 0 2 = NInf \<and> entry (MSWubound rv) 0 2 = PInf"
proof -
  let ?G = "of_rows 1 [[1 :: real]]"
  obtain rv where rv: "CI_dmethod ppf_975 ?G (of_rows 2 [[1, 0], [0, 0]])
           (tabulate3 1 1 3 (\<lambda>i j k. if k = 1 then 1 else 0)) 1
           [Matrix (eye 1), Matrix (of_rows 1 [[1 / 2]]), Matrix (of_rows 1 [[0]])]
           3 (95 / 100) 1 1 = Some rv"
      "entry (casedummy rv) 0 2 = 4" "entry (ahat rv) 0 2 = 1"
    using CI_dmethod_example by blast
  have "(0::nat) < nrows ?G" "(2::nat) < 3" by (simp_all add: of_rows_def)
  from CI_dmethod_case_classification [OF rv(1) this] rv(2,3)
  have "entry (Deltahat rv) 0 2 = 0
     \<and> entry (MSWlbound rv) 0 2 = NInf \<and> entry (MSWubound rv) 0 2 = PInf"
    by simp
  then show ?thesis using rv by blast
qed

theorem CI_dmethod_normalized_cell_witness:
  "\<exists>rv. CI_dmethod ppf_975 (of_rows 1 [[1]]) (of_rows 2 [[1, 0], [0, 0]])
           (tabulate3 1 1 3 (\<lambda>i j k. if k = 1 then 1 else 0)) 1
           [Matrix (eye 1), Matrix (of_rows 1 [[1 / 2]]), Matrix (of_rows 1 [[0]])]
           3 (95 / 100) 1 1 = Some rv
     \<and> entry (MSWlbound rv) 0 0 = Fin 1 \<and> entry (MSWubound rv) 0 0 = Fin 1"
proof -
  let ?G = "of_rows 1 [[1 :: real]]"
  obtain rv where rv: "CI_dmethod ppf_975 ?G (of_rows 2 [[1, 0], [0, 0]])
           (tabulate3 1 1 3 (\<lambda>i j k. if k = 1 then 1 else 0)) 1
           [Matrix (eye 1), Matrix (of_rows 1 [[1 / 2]]), Matrix (of_rows 1 [[0]])]
           3 (95 / 100) 1 1 = Some rv"
    using CI_dmethod_example by blast
  have "py_index (nrows ?G) (1 - 1) = Some 0" by (simp add: py_index_def of_rows_def)
  then have "entry (MSWlbound rv) 0 0 = Fin 1 \<and> entry (MSWubound rv) 0 0 = Fin 1"
    using CI_dmethod_normalized_cell [OF rv] by auto
  then show ?thesis using rv by blast
qed

theorem CI_dmethod_bounds_ordered_witness:
  "\<exists>rv lo up. CI_dmethod ppf_975 (of_rows 1 [[1]]) (of_rows 2 [[1, 0], [0, 0]])
           (tabulate3 1 1 3 (\<lambda>i j k. if k = 1 then 1 else 0)) 1
           [Matrix (eye 1), Matrix (of_rows 1 [[1 / 2]]), Matrix (of_rows 1 [[0]])]
           3 (95 / 100) 1 1 = Some rv
     \<and> entry (casedummy rv) 0 1 = 1
     \<and> entry (MSWlbound rv) 0 1 = Fin lo \<and> entry (MSWubound rv) 0 1 = Fin up \<and> lo < up"
proof -
  let ?G = "of_rows 1 [[1 :: real]]"
  obtain rv where rv: "CI_dmethod ppf_975 ?G (of_rows 2 [[1, 0], [0, 0]])
           (tabulate3 1 1 3 (\<lambda>i j k. if k = 1 then 1 else 0)) 1
           [Matrix (eye 1), Matrix (of_rows 1 [[1 / 2]]), Matrix (of_rows 1 [[0]])]
           3 (95 / 100) 1 1 = Some rv"
      "entry (casedummy rv) 0 1 = 1"
    using CI_dmethod_example by blast
  have "(0::nat) < nrows ?G" "(1::nat) < 3" by (simp_all add: of_rows_def)
  from CI_dmethod_bounds_ordered [OF rv(1) this] rv(2)
  obtain lo up where "entry (MSWlbound rv) 0 1 = Fin lo" "entry (MSWubound rv) 0 1 = Fin up"
      "lo \<le> up" "lo \<noteq> up"
    by auto
  then show ?thesis using rv by (intro exI [of _ rv] exI [of _ lo] exI [of _ up]) simp
qed

section \<open>Confidence intervals by the standard Delta method: theorems\<close>







section \<open>Gradient matrices: theorems\<close>

lemma those_map_ex:
  "(\<And>x. x \<in> set xs \<Longrightarrow> \<exists>y. f x = Some y \<and> P y)
     \<Longrightarrow> \<exists>ys. those (map f xs) = Some ys \<and> length ys = length xs \<and> (\<forall>y\<in>set ys. P y)"
proof (induction xs)
  case Nil
  then show ?case by simp
next
  case (Cons x xs)
  obtain y where y: "f x = Some y" "P y" using Cons.prems [of x] by auto
  obtain ys where ys: "those (map f xs) = Some ys" "length ys = length xs" "\<forall>y\<in>set ys. P y"
    using Cons.IH Cons.prems by auto
  show ?case using y ys by (intro exI [of _ "y # ys"]) simp
qed

lemma shape_kron [simp]:
  "nrows (kron A B) = nrows A * nrows B" "ncols (kron A B) = ncols A * ncols B"
  by (simp_all add: kron_def)

lemma shape_hcat [simp]: "nrows (hcat A B) = nrows A" "ncols (hcat A B) = ncols A + ncols B"
  by (simp_all add: hcat_def)

lemma shape_vcat [simp]: "nrows (vcat A B) = nrows A + nrows B" "ncols (vcat A B) = ncols A"
  by (simp_all add: vcat_def)

lemma shape_slice2:
  "nrows (slice2 A rs cs) = py_hi (nrows A) (snd rs) - py_lo (nrows A) (fst rs)"
  "ncols (slice2 A rs cs) = py_hi (ncols A) (snd cs) - py_lo (ncols A) (fst cs)"
  by (simp_all add: slice2_def Let_def)

lemma shape_mat_pow:
  "nrows A = ncols A \<Longrightarrow> nrows (mat_pow A h) = nrows A \<and> ncols (mat_pow A h) = nrows A"
  by (induction h) simp_all

lemma ncols_foldl_hcat:
  "\<forall>m'\<in>set ms. ncols m' = c \<Longrightarrow> ncols (foldl hcat m ms) = ncols m + c * length ms"
  by (induction ms arbitrary: m) simp_all

lemma concatenate1_shape:
  assumes "ms \<noteq> []" "\<forall>m\<in>set ms. nrows m = r \<and> ncols m = c"
  shows "\<exists>M. concatenate1 ms = Some M \<and> nrows M = r \<and> ncols M = c * length ms"
proof (cases ms)
  case Nil
  then show ?thesis using assms(1) by simp
next
  case (Cons m ms')
  then have "\<forall>m'\<in>set ms'. ncols m' = c" "ncols m = c" "nrows m = r" "\<forall>m'\<in>set ms'. nrows m' = nrows m"
    using assms(2) by simp_all
  then show ?thesis using Cons ncols_foldl_hcat [of ms' c m]
    by (simp add: concatenate1_def list_all_iff)
qed

lemma set_block_exact:
  assumes "nrows B = py_hi (nrows A) (snd rs) - py_lo (nrows A) (fst rs)"
    "ncols B = py_hi (ncols A) (snd cs) - py_lo (ncols A) (fst cs)"
  shows "\<exists>A'. set_block A rs cs B = Some A' \<and> nrows A' = nrows A \<and> ncols A' = ncols A"
  using assms by (simp add: set_block_def broadcast_to_def Let_def)

lemma sum_axis0_shape:
  "ms \<noteq> [] \<Longrightarrow> \<forall>m\<in>set ms. nrows m = r \<and> ncols m = c
     \<Longrightarrow> \<exists>S. sum_axis0 ms = Some (Matrix S) \<and> nrows S = r \<and> ncols S = c"
  by (cases ms) (simp_all add: sum_axis0_def list_all_iff)

lemma dims_tabulate3 [simp]:
  "dim0 (tabulate3 a b c f) = a" "dim1 (tabulate3 a b c f) = b" "dim2 (tabulate3 a b c f) = c"
  by (simp_all add: tabulate3_def)

lemma entry3_tabulate3 [simp]:
  "x < a \<Longrightarrow> y < b \<Longrightarrow> z < c \<Longrightarrow> entry3 (tabulate3 a b c f) x y z = f x y z"
  by (simp add: tabulate3_def)

lemma entry3_tabulate3_zero [simp]: "entry3 (tabulate3 a b c (\<lambda>x y z. 0)) x y z = 0"
  by (simp add: tabulate3_def)

lemma set_axis2_slice_props:
  assumes "nrows M = dim0 G" "ncols M = dim1 G" "i < dim2 G" "i \<noteq> 0" "\<forall>x y. entry3 G x y 0 = 0"
  shows "\<exists>G'. set_axis2_slice G i M = Some G' \<and> dim0 G' = dim0 G \<and> dim1 G' = dim1 G
     \<and> dim2 G' = dim2 G \<and> (\<forall>x y. entry3 G' x y 0 = 0)"
  using assms by (simp add: set_axis2_slice_def broadcast_to_def tabulate3_def)

lemma G_fill_invariant:
  "\<forall>i\<in>set is. 1 \<le> i \<and> i < dim2 G \<and> i - 1 < dim2 Gaux \<Longrightarrow>
   dim0 Gaux = dim0 G \<Longrightarrow> dim1 Gaux = dim1 G \<Longrightarrow> \<forall>x y. entry3 G x y 0 = 0 \<Longrightarrow>
   \<exists>G'. G_fill Gaux is G = Some G' \<and> dim0 G' = dim0 G \<and> dim1 G' = dim1 G \<and> dim2 G' = dim2 G
      \<and> (\<forall>x y. entry3 G' x y 0 = 0)"
proof (induction "is" arbitrary: G)
  case Nil
  then show ?case by simp
next
  case (Cons i "is")
  let ?M = "tabulate2 (dim0 Gaux) (dim1 Gaux) (\<lambda>x y. entry3 Gaux x y (i - 1))"
  have i: "1 \<le> i" "i < dim2 G" "i - 1 < dim2 Gaux" using Cons.prems(1) by simp_all
  have a: "axis2_slice Gaux (i - 1) = Some ?M" using i by (simp add: axis2_slice_def)
  obtain G1 where G1: "set_axis2_slice G i ?M = Some G1" "dim0 G1 = dim0 G" "dim1 G1 = dim1 G"
      "dim2 G1 = dim2 G" "\<forall>x y. entry3 G1 x y 0 = 0"
    using set_axis2_slice_props [of ?M G i] i Cons.prems(2,3,4) by auto
  have "\<exists>G'. G_fill Gaux is G1 = Some G' \<and> dim0 G' = dim0 G1 \<and> dim1 G' = dim1 G1
      \<and> dim2 G' = dim2 G1 \<and> (\<forall>x y. entry3 G' x y 0 = 0)"
    using Cons.prems(1,2,3) G1 by (intro Cons.IH) simp_all
  then show ?case using a G1 by simp
qed

lemma running_sum_eq: "running_sum f z = (\<Sum>k\<le>z. f k)"
  by (induction z) simp_all

lemma Gmatrices_C_aux:
  assumes "length Cs = hori" "2 \<le> hori" "\<forall>C\<in>set Cs. nrows C = n \<and> ncols C = n"
  shows "\<exists>Ds. py_take (int hori - 1) (Matrix (eye n) # py_take (int hori) (drop 1 (map Matrix Cs)))
            = map Matrix Ds
     \<and> length Ds = hori - 1 \<and> (\<forall>D\<in>set Ds. nrows D = n \<and> ncols D = n)"
proof -
  let ?Ds = "take (hori - 1) (eye n # drop 1 Cs)"
  have l: "length (drop 1 (map Matrix Cs)) = hori - 1" using assms(1) by simp
  have "py_take (int hori) (drop 1 (map Matrix Cs)) = drop 1 (map Matrix Cs)"
    using assms(1) by (simp add: py_take_def py_bound_def)
  moreover have "py_bound (Suc (hori - 1)) (int hori - 1) = hori - 1"
    using assms(2) by (simp add: py_bound_def)
  ultimately have "py_take (int hori - 1) (Matrix (eye n) # py_take (int hori) (drop 1 (map Matrix Cs)))
      = take (hori - 1) (Matrix (eye n) # drop 1 (map Matrix Cs))"
    using l by (simp add: py_take_def)
  also have "\<dots> = map Matrix ?Ds"
  proof -
    have "Matrix (eye n) # drop 1 (map Matrix Cs) = map Matrix (eye n # drop 1 Cs)"
      by (simp add: drop_map)
    then show ?thesis by (simp only: take_map)
  qed
  finally have e: "py_take (int hori - 1) (Matrix (eye n) # py_take (int hori) (drop 1 (map Matrix Cs)))
      = map Matrix ?Ds" .
  have "length ?Ds = hori - 1" using assms(1,2) by simp
  moreover have "\<forall>D\<in>set ?Ds. nrows D = n \<and> ncols D = n"
  proof
    fix D assume "D \<in> set ?Ds"
    then have "D \<in> set (eye n # drop 1 Cs)" by (rule in_set_takeD)
    then have "D = eye n \<or> D \<in> set Cs" by (auto dest: in_set_dropD)
    then show "nrows D = n \<and> ncols D = n" using assms(3) by auto
  qed
  ultimately show ?thesis using e by blast
qed

lemma Gmatrices_Alut:
  assumes "nrows betas = n" "ncols betas = c" "n \<le> c"
  shows "\<exists>Az Alut0 Alut.
       np_zeros (int c - int n) (int c) = Some Az
     \<and> concatenate0 betas Az = Some Alut0
     \<and> set_block Alut0 (Some (int n), None) (None, Some (int (ncols Alut0) - int n))
          (eye (nrows (slice2 Alut0 (Some (int n), None) (None, None)))) = Some Alut
     \<and> nrows Alut = c \<and> ncols Alut = c"
proof -
  let ?Az = "zeros (c - n) c"
  have z: "np_zeros (int c - int n) (int c) = Some ?Az"
    using assms(3) by (simp add: np_zeros_def nat_diff_distrib')
  let ?A0 = "vcat betas ?Az"
  have c0: "concatenate0 betas ?Az = Some ?A0" using assms(2) by (simp add: concatenate0_def)
  have sh: "nrows ?A0 = c" "ncols ?A0 = c" using assms by simp_all
  let ?E = "eye (nrows (slice2 ?A0 (Some (int n), None) (None, None)))"
  have r: "nrows ?E = py_hi (nrows ?A0) (snd (Some (int n), None)) - py_lo (nrows ?A0) (fst (Some (int n), None :: int option))"
    by (simp add: shape_slice2)
  have c: "ncols ?E = py_hi (ncols ?A0) (snd (None :: int option, Some (int (ncols ?A0) - int n)))
       - py_lo (ncols ?A0) (fst (None :: int option, Some (int (ncols ?A0) - int n)))"
    unfolding sh using assms(1,3)
    by (auto simp: shape_slice2 py_hi_def py_lo_def py_bound_def nat_diff_distrib' min_def)
  obtain Alut where "set_block ?A0 (Some (int n), None) (None, Some (int (ncols ?A0) - int n)) ?E = Some Alut"
      "nrows Alut = nrows ?A0" "ncols Alut = ncols ?A0"
    using set_block_exact [OF r c] by blast
  then show ?thesis using z c0 sh by (intro exI [of _ ?Az] exI [of _ ?A0] exI [of _ Alut]) simp
qed


lemma Gmatrices_AJ:
  assumes "nrows Alut = c" "ncols Alut = c" "nrows J = n" "ncols J = c" "1 \<le> k"
  shows "\<exists>AJ AJc. those (map (\<lambda>h. do { P \<leftarrow> matrix_power Alut h; matmul P (tr J) }) [0..<k]) = Some AJ
     \<and> concatenate1 AJ = Some AJc \<and> nrows AJc = c \<and> ncols AJc = n * k"
proof -
  have "\<And>h. h \<in> set [0..<k] \<Longrightarrow>
      \<exists>y. (do { P \<leftarrow> matrix_power Alut h; matmul P (tr J) }) = Some y \<and> (nrows y = c \<and> ncols y = n)"
    using assms(1,2,3,4) shape_mat_pow [of Alut]
    by (simp add: matrix_power_def matmul_def)
  then obtain AJ where AJ:
    "those (map (\<lambda>h. do { P \<leftarrow> matrix_power Alut h; matmul P (tr J) }) [0..<k]) = Some AJ"
    "length AJ = length [0..<k]" "\<forall>y\<in>set AJ. nrows y = c \<and> ncols y = n"
    using those_map_ex [of "[0..<k]" "\<lambda>h. do { P \<leftarrow> matrix_power Alut h; matmul P (tr J) }"
        "\<lambda>y. nrows y = c \<and> ncols y = n"] by blast
  have "AJ \<noteq> []" using AJ(2) assms(5) by auto
  then obtain AJc where "concatenate1 AJ = Some AJc" "nrows AJc = c" "ncols AJc = n * length AJ"
    using concatenate1_shape [OF _ AJ(3)] by blast
  then show ?thesis using AJ(1,2) by (intro exI [of _ AJ] exI [of _ AJc]) simp
qed

lemma Gmatrices_AJaux_step:
  assumes "nrows AJp = n * k" "ncols AJp = c" "i < k" "nrows D = n" "ncols D = n"
  shows "\<exists>Z. set_block (zeros (nrows AJp * n) (ncols AJp * n)) (Some (int (i * n\<^sup>2)), None) (None, None)
            (slice2 (kron_nd (slice2 AJp (None, Some (int (n * (Suc k - i)))) (None, None)) (Matrix D))
               (None, Some (int (nrows (zeros (nrows AJp * n) (ncols AJp * n))) - int (n\<^sup>2 * i)))
               (None, None)) = Some Z
       \<and> nrows Z = nrows AJp * n \<and> ncols Z = ncols AJp * n"
proof -
  let ?Z0 = "zeros (nrows AJp * n) (ncols AJp * n)"
  let ?sl = "slice2 AJp (None, Some (int (n * (Suc k - i)))) (None, None)"
  let ?l = "kron_nd ?sl (Matrix D)"
  let ?V = "slice2 ?l (None, Some (int (nrows ?Z0) - int (n\<^sup>2 * i))) (None, None)"
  have le: "n\<^sup>2 * i \<le> n * k * n"
  proof -
    have "n * n * i \<le> n * n * k" using assms(3) by (intro mult_le_mono2) simp
    then show ?thesis by (simp add: power2_eq_square ac_simps)
  qed
  have sl: "nrows ?sl = min (n * k) (n * (Suc k - i))" "ncols ?sl = c"
    using assms(1,2) by (simp_all add: shape_slice2 py_hi_def py_lo_def py_bound_def del: of_nat_mult)
  have l: "nrows ?l = min (n * k) (n * (Suc k - i)) * n" "ncols ?l = c * n"
    using sl assms(4,5) by (simp_all add: kron_nd_def)
  have ge: "n * k * n - n\<^sup>2 * i \<le> min (n * k) (n * (Suc k - i)) * n"
  proof -
    have "n * k * n - n\<^sup>2 * i = n * (k - i) * n"
      by (simp add: power2_eq_square diff_mult_distrib diff_mult_distrib2 ac_simps)
    moreover have "n * (k - i) \<le> n * k" "n * (k - i) \<le> n * (Suc k - i)"
      by (intro mult_le_mono2, simp)+
    then have "n * (k - i) \<le> min (n * k) (n * (Suc k - i))" by simp
    then have "n * (k - i) * n \<le> min (n * k) (n * (Suc k - i)) * n" by (rule mult_le_mono1)
    ultimately show ?thesis by simp
  qed
  have nat_eq: "nat (int (n * k * n) - int (n\<^sup>2 * i)) = n * k * n - n\<^sup>2 * i"
    using le by (simp add: nat_diff_distrib' del: of_nat_mult of_nat_power)
  have nonneg: "\<not> int (n * k * n) - int (n\<^sup>2 * i) < 0"
    using le by (simp del: of_nat_mult of_nat_power)
  have V: "nrows ?V = n * k * n - n\<^sup>2 * i" "ncols ?V = c * n"
    using l ge nat_eq nonneg assms(1)
    by (simp_all add: shape_slice2 py_hi_def py_lo_def py_bound_def min_absorb2
        del: of_nat_mult of_nat_power)
  have r: "nrows ?V = py_hi (nrows ?Z0) (snd (Some (int (i * n\<^sup>2)), None :: int option))
       - py_lo (nrows ?Z0) (fst (Some (int (i * n\<^sup>2)), None :: int option))"
    using V(1) assms(1) le
    by (simp add: py_hi_def py_lo_def py_bound_def min_def ac_simps del: of_nat_mult of_nat_power)
  have c: "ncols ?V = py_hi (ncols ?Z0) (snd (None :: int option, None :: int option))
       - py_lo (ncols ?Z0) (fst (None :: int option, None :: int option))"
    using V(2) assms(2) by (simp add: py_hi_def py_lo_def)
  show ?thesis using set_block_exact [OF r c] by simp
qed

lemma Gmatrices_Suc:
  assumes c: "ncols betas = nrows betas * p" and p: "1 \<le> p" and k: "1 \<le> k"
  shows "\<exists>G. Gmatrices betas p (Suc k) = Some (G, cumsum2 G)
     \<and> dim0 G = (nrows betas)\<^sup>2 \<and> dim1 G = p * (nrows betas)\<^sup>2 \<and> dim2 G = Suc k
     \<and> (\<forall>x y. entry3 G x y 0 = 0)"
proof -
  let ?n = "nrows betas"
  let ?A = "lag_blocks betas ?n p"
  have A: "\<forall>a\<in>set ?A. nrows a = ?n \<and> ncols a = ?n" "1 \<le> length ?A"
    using lag_blocks_shapes [of ?n p betas] c p by simp_all
  obtain Cs where Cs:
    "MA_loop ?A [1..<Suc k] (map Matrix [eye ?n]) = Some (map Matrix Cs)"
    "length Cs = max 1 (Suc k)"
    "\<forall>C\<in>set Cs. nrows C = ?n \<and> ncols C = ?n"
    using MA_loop_invariant [OF A, of "[eye ?n]" 1 "Suc k"] by auto
  have s1: "MA_representation betas p (Suc k) = Some (map Matrix Cs)"
    using Cs(1) by (simp add: MA_representation_def)
  have len: "length Cs = Suc k" using Cs(2) by simp
  obtain Ds where Ds:
    "py_take (int (Suc k) - 1) (Matrix (eye ?n) # py_take (int (Suc k)) (drop 1 (map Matrix Cs)))
       = map Matrix Ds"
    "length Ds = Suc k - 1" "\<forall>D\<in>set Ds. nrows D = ?n \<and> ncols D = ?n"
    using Gmatrices_C_aux [OF len _ Cs(3)] k by auto
  have lenD: "length Ds = k" using Ds(2) by simp
  let ?Jz = "zeros ?n ((p - 1) * ?n)"
  have "nat ((int p - 1) * int ?n) = (p - 1) * ?n"
    using p by (simp add: nat_mult_distrib nat_diff_distrib')
  moreover have "\<not> (int p - 1) * int ?n < 0" using p by (simp add: mult_less_0_iff)
  ultimately have s3: "np_zeros (int ?n) ((int p - 1) * int ?n) = Some ?Jz"
    by (simp add: np_zeros_def)
  let ?J = "hcat (eye ?n) ?Jz"
  have s4: "concatenate1 [eye ?n, ?Jz] = Some ?J" by (simp add: concatenate1_def)
  have "?n + (p - 1) * ?n = ?n * p" using p by (cases p) simp_all
  then have J: "nrows ?J = ?n" "ncols ?J = ncols betas" using c by simp_all
  have "?n \<le> ncols betas" using c p by simp
  then obtain Az Alut0 Alut where Al:
    "np_zeros (int (ncols betas) - int ?n) (int (ncols betas)) = Some Az"
    "concatenate0 betas Az = Some Alut0"
    "set_block Alut0 (Some (int ?n), None) (None, Some (int (ncols Alut0) - int ?n))
          (eye (nrows (slice2 Alut0 (Some (int ?n), None) (None, None)))) = Some Alut"
    "nrows Alut = ncols betas" "ncols Alut = ncols betas"
    using Gmatrices_Alut [of betas ?n "ncols betas"] by blast
  obtain AJ AJc where AJ:
    "those (map (\<lambda>h. do { P \<leftarrow> matrix_power Alut h; matmul P (tr ?J) }) [0..<k]) = Some AJ"
    "concatenate1 AJ = Some AJc" "nrows AJc = ncols betas" "ncols AJc = ?n * k"
    using Gmatrices_AJ [OF Al(4,5) J k] by blast
  let ?AJp = "tr AJc"
  have AJp: "nrows ?AJp = ?n * k" "ncols ?AJp = ncols betas" using AJ(3,4) by simp_all
  let ?f = "\<lambda>i. (if i < length (map Matrix Ds) then Some (map Matrix Ds ! i) else None) \<bind>
      (\<lambda>c. set_block (zeros (nrows ?AJp * ?n) (ncols ?AJp * ?n)) (Some (int (i * ?n\<^sup>2)), None) (None, None)
            (slice2 (kron_nd (slice2 ?AJp (None, Some (int (?n * (Suc k - i)))) (None, None)) c)
               (None, Some (int (nrows (zeros (nrows ?AJp * ?n) (ncols ?AJp * ?n))) - int (?n\<^sup>2 * i)))
               (None, None)))"
  have "\<And>i. i \<in> set [0..<k] \<Longrightarrow>
      \<exists>Z. ?f i = Some Z \<and> (nrows Z = nrows ?AJp * ?n \<and> ncols Z = ncols ?AJp * ?n)"
  proof -
    fix i assume "i \<in> set [0..<k]"
    then have i: "i < k" by simp
    then have "Ds ! i \<in> set Ds" using lenD by simp
    then have D: "nrows (Ds ! i) = ?n" "ncols (Ds ! i) = ?n" using Ds(3) by blast+
    have e: "(if i < length (map Matrix Ds) then Some (map Matrix Ds ! i) else None) = Some (Matrix (Ds ! i))"
      using i lenD by simp
    show "\<exists>Z. ?f i = Some Z \<and> (nrows Z = nrows ?AJp * ?n \<and> ncols Z = ncols ?AJp * ?n)"
      unfolding e bind.bind_lunit by (rule Gmatrices_AJaux_step [OF AJp i D])
  qed
  then obtain AJaux where AJaux:
    "those (map ?f [0..<k]) = Some AJaux" "length AJaux = length [0..<k]"
    "\<forall>Z\<in>set AJaux. nrows Z = nrows ?AJp * ?n \<and> ncols Z = ncols ?AJp * ?n"
    using those_map_ex [of "[0..<k]" ?f "\<lambda>Z. nrows Z = nrows ?AJp * ?n \<and> ncols Z = ncols ?AJp * ?n"]
    by blast
  have "AJaux \<noteq> []" using AJaux(2) k by auto
  then obtain S where S: "sum_axis0 AJaux = Some (Matrix S)"
     "nrows S = nrows ?AJp * ?n" "ncols S = ncols ?AJp * ?n"
    using sum_axis0_shape [OF _ AJaux(3)] by blast
  have sz: "nrows (tr S) * ncols (tr S) = p * ?n\<^sup>2 * ?n\<^sup>2 * k"
    using S(2,3) AJp c by (simp add: power2_eq_square ac_simps)
  let ?G0 = "tabulate3 (p * ?n\<^sup>2) (?n\<^sup>2) k
             (\<lambda>x y z. entry (tr S) ((x + p * ?n\<^sup>2 * (y + ?n\<^sup>2 * z)) mod nrows (tr S))
                              ((x + p * ?n\<^sup>2 * (y + ?n\<^sup>2 * z)) div nrows (tr S)))"
  have s9: "reshape_F (tr S) (p * ?n\<^sup>2) (?n\<^sup>2) k = Some ?G0"
    using sz by (simp add: reshape_F_def)
  let ?Gaux = "moveaxis_102 ?G0"
  have Gaux: "dim0 ?Gaux = ?n\<^sup>2" "dim1 ?Gaux = p * ?n\<^sup>2" "dim2 ?Gaux = k"
    by (simp_all add: moveaxis_102_def)
  let ?Gz = "tabulate3 (dim0 ?Gaux) (dim1 ?Gaux) (dim2 ?Gaux + 1) (\<lambda>x y z. 0)"
  have "\<exists>G'. G_fill ?Gaux [1..<dim2 ?Gaux + 1] ?Gz = Some G' \<and> dim0 G' = dim0 ?Gz
      \<and> dim1 G' = dim1 ?Gz \<and> dim2 G' = dim2 ?Gz \<and> (\<forall>x y. entry3 G' x y 0 = 0)"
    by (rule G_fill_invariant) auto
  then obtain G where G: "G_fill ?Gaux [1..<dim2 ?Gaux + 1] ?Gz = Some G"
      "dim0 G = ?n\<^sup>2" "dim1 G = p * ?n\<^sup>2" "dim2 G = Suc k" "\<forall>x y. entry3 G x y 0 = 0"
    using Gaux by auto
  have km: "Suc k - 1 = k" by simp
  have "Gmatrices betas p (Suc k) = Some (G, cumsum2 G)"
    unfolding Gmatrices_def Let_def
    by (simp only: s1 bind.bind_lunit Ds(1) s3 s4 Al(1,2,3) km AJ(1,2) AJaux(1) S(1) ndarr.case s9 G(1))
  then show ?thesis using G(2,3,4,5) by blast
qed

lemma Gmatrices_returns:
  assumes "nrows betas = n" "ncols betas = n * p" "1 \<le> p" "2 \<le> hori"
  shows "\<exists>G. Gmatrices betas p hori = Some (G, cumsum2 G)
     \<and> dim0 G = n\<^sup>2 \<and> dim1 G = p * n\<^sup>2 \<and> dim2 G = hori \<and> (\<forall>x y. entry3 G x y 0 = 0)"
proof -
  obtain k where k: "hori = Suc k" "1 \<le> k" using assms(4) by (cases hori) auto
  show ?thesis using Gmatrices_Suc [of betas p k] assms(1,2,3) k by simp
qed

lemma Gmatrices_short_horizon: "hori \<le> 1 \<Longrightarrow> Gmatrices betas p hori = None"
  by (simp add: Gmatrices_def concatenate1_def Let_def split: Option.bind_split)

lemma entry3_cumsum2:
  "x < dim0 G \<Longrightarrow> y < dim1 G \<Longrightarrow> z < dim2 G \<Longrightarrow> entry3 (cumsum2 G) x y z = (\<Sum>k\<le>z. entry3 G x y k)"
  by (simp add: cumsum2_def running_sum_eq)

lemma dims_cumsum2 [simp]:
  "dim0 (cumsum2 G) = dim0 G" "dim1 (cumsum2 G) = dim1 G" "dim2 (cumsum2 G) = dim2 G"
  by (simp_all add: cumsum2_def)

text \<open>
  C4. For \<open>betas\<close> with \<open>n\<close> rows and \<open>n p\<close> columns, \<open>p \<ge> 1\<close> lags and a horizon
  \<open>hori \<ge> 2\<close>, \<open>Gmatrices\<close> returns \<open>G\<close> and \<open>Gcum\<close>, both of shape
  \<open>n\<^sup>2 \<times> (n p n) \<times> hori\<close> (the rows are the \<open>n\<^sup>2\<close> entries of the moving-average coefficient, the
  columns the \<open>n p n\<close> lag coefficients); the slice \<open>G[:, :, 0]\<close> is zero; and \<open>Gcum\<close> is the running
  sum of \<open>G\<close> along the last axis.
\<close>

theorem Gmatrices_shape_zero_cumsum:
  assumes "nrows betas = n" "ncols betas = n * p" "1 \<le> p" "2 \<le> hori"
  shows "\<exists>G Gcum. Gmatrices betas p hori = Some (G, Gcum)
     \<and> shape3 G = (n\<^sup>2, n * p * n, hori) \<and> shape3 Gcum = (n\<^sup>2, n * p * n, hori)
     \<and> (\<forall>x y. entry3 G x y 0 = 0)
     \<and> (\<forall>x y z. x < n\<^sup>2 \<and> y < n * p * n \<and> z < hori
           \<longrightarrow> entry3 Gcum x y z = (\<Sum>k\<le>z. entry3 G x y k))"
proof -
  obtain G where G: "Gmatrices betas p hori = Some (G, cumsum2 G)"
    "dim0 G = n\<^sup>2" "dim1 G = p * n\<^sup>2" "dim2 G = hori" "\<forall>x y. entry3 G x y 0 = 0"
    using Gmatrices_returns [OF assms] by blast
  have d1: "dim1 G = n * p * n" using G(3) by (simp add: power2_eq_square)
  have "\<forall>x y z. x < n\<^sup>2 \<and> y < n * p * n \<and> z < hori
           \<longrightarrow> entry3 (cumsum2 G) x y z = (\<Sum>k\<le>z. entry3 G x y k)"
    using G(2,4) d1 by (simp add: entry3_cumsum2)
  moreover have "shape3 G = (n\<^sup>2, n * p * n, hori)" "shape3 (cumsum2 G) = (n\<^sup>2, n * p * n, hori)"
    using G(2,4) d1 by (simp_all add: shape3_def)
  ultimately show ?thesis using G(1,5) by blast
qed


theorem Gmatrices_shape_zero_cumsum_witness:
  "\<exists>G Gcum. Gmatrices (of_rows 2 [[1/2, 1/4]]) 2 3 = Some (G, Gcum)
     \<and> shape3 G = (1, 2, 3) \<and> shape3 Gcum = (1, 2, 3)
     \<and> entry3 G 0 1 0 = 0
     \<and> entry3 Gcum 0 1 2 = entry3 G 0 1 0 + entry3 G 0 1 1 + entry3 G 0 1 2"
proof -
  let ?B = "of_rows 2 [[1/2, 1/4 :: real]]"
  have sh: "nrows ?B = 1" "ncols ?B = 1 * 2" "(1::nat) \<le> 2" "(2::nat) \<le> 3"
    by (simp_all add: of_rows_def)
  obtain G Gcum where G: "Gmatrices ?B 2 3 = Some (G, Gcum)"
     "shape3 G = (1\<^sup>2, 1 * 2 * 1, 3)" "shape3 Gcum = (1\<^sup>2, 1 * 2 * 1, 3)"
     "\<forall>x y. entry3 G x y 0 = 0"
     "\<forall>x y z. x < (1::nat)\<^sup>2 \<and> y < 1 * 2 * 1 \<and> z < 3
           \<longrightarrow> entry3 Gcum x y z = (\<Sum>k\<le>z. entry3 G x y k)"
    using Gmatrices_shape_zero_cumsum [OF sh] by blast
  have "entry3 Gcum 0 1 2 = (\<Sum>k\<le>2. entry3 G 0 1 k)" using G(5) by simp
  also have "\<dots> = entry3 G 0 1 0 + entry3 G 0 1 1 + entry3 G 0 1 2"
    by (simp add: numeral_2_eq_2)
  finally show ?thesis using G(1,2,3,4) by auto
qed


lemma Gmatrices_example:
  "(case Gmatrices (of_rows 2 [[1/2, 1/4]]) 2 2 of
      None \<Rightarrow> False
    | Some (G, Gcum) \<Rightarrow>
        shape3 G = (1, 2, 2) \<and> entry3 G 0 0 0 = 0 \<and> entry3 G 0 1 0 = 0
      \<and> entry3 G 0 0 1 = 1 \<and> entry3 G 0 1 1 = 0)"
  by code_simp

text \<open>
  With one variable, two lags and two horizons the result has one row and two columns per
  horizon, where the shape \<open>(n p n, n\<^sup>2, horizon)\<close> would have two rows and one column.
\<close>

theorem Gmatrices_shape_counterexample:
  "\<exists>G Gcum. Gmatrices (of_rows 2 [[1/2, 1/4]]) 2 2 = Some (G, Gcum)
     \<and> shape3 G = (1, 2, 2) \<and> entry3 G 0 0 1 = 1 \<and> entry3 G 0 1 1 = 0
     \<and> spec_G_shape 1 2 2 = (2, 1, 2) \<and> shape3 G \<noteq> spec_G_shape 1 2 2"
  using Gmatrices_example by (auto simp: spec_G_shape_def split: option.splits)

section \<open>Instrument relevance: theorems\<close>




lemma shape_as_row [simp]: "nrows (as_row v) = 1" "ncols (as_row v) = length v"
  by (simp_all add: as_row_def)





lemma ncols_foldl_vcat [simp]: "ncols (foldl vcat m ms) = ncols m"
  by (induction ms arbitrary: m) simp_all














lemma py_bounds_None [simp]: "py_lo n None = 0" "py_hi n None = n"
  by (simp_all add: py_lo_def py_hi_def)



lemma py_bound_zero [simp]: "py_bound n 0 = 0"
  by (simp add: py_bound_def)









text \<open>Evaluations on three observations of one variable: the moment stack, the selector of
  the distinct entries of a symmetric 2-by-2 matrix, and a whole run with one regressor.\<close>

lemma moment_stack_example:
  "map_option to_rows (moment_stack (of_rows 2 [[1, 0], [1, 1], [1, 2]]) (of_rows 1 [[1], [0], [2]])
      (of_rows 1 [[1], [- 2], [1]]))
   = Some [[1, 0, - 1, 0], [- 2, - 2, 2, - 1], [1, 2, - 1, 1]]"
  by code_simp

lemma selector_V_example:
  "map_option to_rows (selector_V 2) = Some [[1, 0, 0, 0], [0, 1, 0, 0], [0, 0, 0, 1]]"
  by code_simp

lemma get_gamma_wald_example:
  "map_option (\<lambda>r. (to_rows (gw_WHat r), gw_wald r, to_rows (gw_Gamma_hat r)))
     (get_gamma_wald inv_2x2 (of_rows 1 [[1], [2], [3]]) (of_rows 1 [[1], [0], [2]])
        (of_rows 1 [[1], [- 2], [1]]) 1 1 1)
   = Some ([[9 / 2]], Some (2 / 3), [[1]])"
  by code_simp






end
